theory Spec2Isabelle
  imports Main "HOL-Library.Word"
begin

unbundle bit_operations_syntax

section \<open>Machine types and faults\<close>

type_synonym u8 = "8 word"
type_synonym u32 = "32 word"

text \<open>
  What C leaves undefined or aborts on is a value of the model: a failed \<^verbatim>\<open>assert\<close>
  and a read past the end of an input buffer.
\<close>

datatype fault = AssertFailed | ReadPastEnd

definition bnd :: "fault + 'a \<Rightarrow> ('a \<Rightarrow> fault + 'b) \<Rightarrow> fault + 'b" where
  "bnd m f = (case m of Inl e \<Rightarrow> Inl e | Inr x \<Rightarrow> f x)"

section \<open>DER to raw signature (ecdsa.c, ecdsa\_der\_to\_sig)\<close>

text \<open>
  \<^verbatim>\<open>der[i]\<close>: the input is a byte buffer; reading at or beyond its length is undefined
  in C and is the fault \<open>ReadPastEnd\<close> here. \<^verbatim>\<open>memcpy(dst, &der[off], n)\<close> reads the
  \<open>n\<close> bytes from \<open>off\<close>.
\<close>

definition rd :: "u8 list \<Rightarrow> nat \<Rightarrow> fault + u8" where
  "rd buf i = (if i < length buf then Inr (buf ! i) else Inl ReadPastEnd)"

definition rd_bytes :: "u8 list \<Rightarrow> nat \<Rightarrow> nat \<Rightarrow> fault + u8 list" where
  "rd_bytes buf off n =
     (if off + n \<le> length buf then Inr (take n (drop off buf)) else Inl ReadPastEnd)"

text \<open>\<^verbatim>\<open>memcpy(sig + off, src, n)\<close> and \<^verbatim>\<open>memset(sig + off, 0, n)\<close> on the output buffer.\<close>

definition memcpy_at :: "u8 list \<Rightarrow> nat \<Rightarrow> u8 list \<Rightarrow> u8 list" where
  "memcpy_at dst off src = take off dst @ src @ drop (off + length src) dst"

definition memset0_at :: "u8 list \<Rightarrow> nat \<Rightarrow> nat \<Rightarrow> u8 list" where
  "memset0_at dst off n = memcpy_at dst off (replicate n 0)"

definition SIGNATURE_SIZE_IN_ASN1 :: nat where
  "SIGNATURE_SIZE_IN_ASN1 = 64"

text \<open>\<^verbatim>\<open>memzero(sig, n)\<close> on the \<open>n\<close>-byte output buffer.\<close>

definition memzero :: "nat \<Rightarrow> u8 list" where
  "memzero n = replicate n 0"

text \<open>
  The two branches that store one INTEGER into a 32-byte half of \<open>sig\<close> at offset
  \<open>base\<close> (0 for the first, 32 for the second); \<open>pos\<close> is the index in \<open>der\<close> of the
  INTEGER's first content byte and \<open>b\<close> its length byte.
\<close>

definition store_integer :: "u8 list \<Rightarrow> u8 list \<Rightarrow> nat \<Rightarrow> nat \<Rightarrow> nat \<Rightarrow> fault + u8 list" where
  "store_integer der sig base pos b =
     (if b < 32 then
        (let pad_len = 32 - b;
             sig1 = memset0_at sig base pad_len
         in bnd (rd_bytes der pos b) (\<lambda>bytes. Inr (memcpy_at sig1 (base + pad_len) bytes)))
      else
        bnd (rd_bytes der (pos + (b - 32)) 32) (\<lambda>bytes. Inr (memcpy_at sig base bytes)))"

text \<open>
  The result pairs the returned \<^verbatim>\<open>int\<close> with the final content of the 64 bytes at
  \<open>sig\<close>. \<open>sig\<close> is an output parameter: \<^verbatim>\<open>memzero\<close> overwrites all of it before any
  other use, so its earlier content is not an input of the model.
\<close>

definition ecdsa_der_to_sig :: "u8 list \<Rightarrow> fault + (int \<times> u8 list)" where
  "ecdsa_der_to_sig der =
     (let result0 = (0::int);
          sig0 = memzero SIGNATURE_SIZE_IN_ASN1
      in
      bnd (rd der 0) (\<lambda>d0.
      let result1 = (if d0 \<noteq> 0x30 then - 1 else result0) in
      bnd (rd der 1) (\<lambda>b1.
      bnd (rd der 2) (\<lambda>d2.
      let result2 = (if d2 \<noteq> 0x02 then - 1 else result1) in
      bnd (rd der 3) (\<lambda>b2.
      bnd (store_integer der sig0 0 4 (unat b2)) (\<lambda>sig1.
      let b3_mark_pos = 4 + unat b2 in
      bnd (rd der b3_mark_pos) (\<lambda>d3.
      let result3 = (if d3 \<noteq> 0x02 then - 1 else result2) in
      bnd (rd der (b3_mark_pos + 1)) (\<lambda>b3.
      if unat b2 + unat b3 + 4 \<noteq> unat b1 then Inr (- 1, sig1)
      else
        let b3_pos = b3_mark_pos + 2 in
        bnd (store_integer der sig1 32 b3_pos (unat b3)) (\<lambda>sig2.
        let sig3 = (if result3 = - 1 then memzero SIGNATURE_SIZE_IN_ASN1 else sig2)
        in Inr (result3, sig3))))))))))"

text \<open>
  The spec's fixed-width value of an INTEGER: left-padded with zero bytes to 32 bytes
  when shorter, its low (last) 32 bytes when longer.
\<close>

definition spec_fixed32 :: "u8 list \<Rightarrow> u8 list" where
  "spec_fixed32 bytes =
     (if length bytes < 32 then replicate (32 - length bytes) 0 @ bytes
      else drop (length bytes - 32) bytes)"

text \<open>
  A DER signature as the spec describes it: SEQUENCE tag, outer length, and two
  INTEGERs, each with its tag and length byte, the outer length being the sum of the
  two lengths plus 4.
\<close>

definition der_signature :: "u8 list \<Rightarrow> u8 list \<Rightarrow> u8 list" where
  "der_signature r s =
     [0x30, of_nat (length r + length s + 4), 0x02, of_nat (length r)] @ r @
     [0x02, of_nat (length s)] @ s"

section \<open>The 256-bit integers (bignum.h)\<close>

text \<open>
  \<^verbatim>\<open>typedef struct { uint32_t val[9]; } bignum256;\<close> with the header's comment: 256 bits
  stored as 8 limbs of 30 bits and one of 16 bits, \<^verbatim>\<open>val[0]\<close> the lowest 30 bits. The
  array is the list of its nine limbs.
\<close>

record bignum256 =
  val :: "u32 list"

text \<open>The number a limb array stands for: limb \<open>j\<close> has weight \<open>2 ^ (30 * j)\<close>.\<close>

fun limbs_val :: "u32 list \<Rightarrow> nat" where
  "limbs_val [] = 0"
| "limbs_val (w # ws) = unat w + 2 ^ 30 * limbs_val ws"

definition bn_val :: "bignum256 \<Rightarrow> nat" where
  "bn_val a = limbs_val (val a)"

text \<open>
  The representation invariant of a limb array between operations: nine limbs, the lower
  eight below \<open>2 ^ 30\<close>. The top limb holds the rest (16 bits for a value below
  \<open>2 ^ 256\<close>, a little more for a partly reduced one).
\<close>

definition bn_norm :: "bignum256 \<Rightarrow> bool" where
  "bn_norm a \<longleftrightarrow> length (val a) = 9 \<and> list_all (\<lambda>w. w < 2 ^ 30) (take 8 (val a))"

text \<open>
  Modelled from the spec: the bodies of \<^verbatim>\<open>bn_zero\<close>, \<^verbatim>\<open>bn_is_zero\<close>, \<^verbatim>\<open>bn_is_equal\<close> and
  \<^verbatim>\<open>bn_is_less\<close> (declared in bignum.h, defined in bignum.c) are not part of the sources.
  The spec describes them as the zero value, the zero test, equality and less-than of
  normalized limb integers: zero is the array of nine zero limbs, equality is equality of
  the arrays, less-than compares the numbers.
\<close>

definition bn_zero :: bignum256 where
  "bn_zero = \<lparr>val = replicate 9 0\<rparr>"

definition bn_is_zero :: "bignum256 \<Rightarrow> bool" where
  "bn_is_zero a \<longleftrightarrow> val a = replicate 9 0"

definition bn_is_equal :: "bignum256 \<Rightarrow> bignum256 \<Rightarrow> bool" where
  "bn_is_equal a b \<longleftrightarrow> val a = val b"

definition bn_is_less :: "bignum256 \<Rightarrow> bignum256 \<Rightarrow> bool" where
  "bn_is_less a b \<longleftrightarrow> bn_val a < bn_val b"

section \<open>Affine points (ecdsa.c)\<close>

text \<open>
  \<^verbatim>\<open>typedef struct { bignum256 x, y; } curve_point;\<close> (ecdsa.h). The fields \<^verbatim>\<open>x\<close> and
  \<^verbatim>\<open>y\<close> are \<open>pt_x\<close> and \<open>pt_y\<close> here; those of \<^verbatim>\<open>jacobian_curve_point\<close> below are \<open>jp_x\<close>,
  \<open>jp_y\<close> and \<open>jp_z\<close>, and those of \<^verbatim>\<open>ecdsa_curve\<close> carry the prefix \<open>curve_\<close>.
\<close>

record curve_point =
  pt_x :: bignum256
  pt_y :: bignum256

definition point_copy :: "curve_point \<Rightarrow> curve_point" where
  "point_copy cp1 = cp1"

definition point_set_infinity :: curve_point where
  "point_set_infinity = \<lparr>pt_x = bn_zero, pt_y = bn_zero\<rparr>"

definition point_is_infinity :: "curve_point \<Rightarrow> bool" where
  "point_is_infinity p \<longleftrightarrow> bn_is_zero (pt_x p) \<and> bn_is_zero (pt_y p)"

definition point_is_equal :: "curve_point \<Rightarrow> curve_point \<Rightarrow> bool" where
  "point_is_equal p q \<longleftrightarrow> bn_is_equal (pt_x p) (pt_x q) \<and> bn_is_equal (pt_y p) (pt_y q)"

definition point_is_negative_of :: "curve_point \<Rightarrow> curve_point \<Rightarrow> bool" where
  "point_is_negative_of p q =
     (if \<not> bn_is_equal (pt_x p) (pt_x q) then False
      else if bn_is_zero (pt_y p) then False
      else \<not> bn_is_equal (pt_y p) (pt_y q))"

section \<open>Conditional negation (ecdsa.c)\<close>

text \<open>
  One round of the loop body, for limb \<open>j\<close>: the state is \<^verbatim>\<open>tmp\<close> and the array
  \<^verbatim>\<open>a\<close>. All arithmetic is on \<^verbatim>\<open>uint32_t\<close> and wraps.
\<close>

definition cn_step :: "u32 \<Rightarrow> bignum256 \<Rightarrow> nat \<Rightarrow> u32 \<times> bignum256 \<Rightarrow> u32 \<times> bignum256" where
  "cn_step cond prime j s =
     (let tmp = fst s; a = snd s;
          tmp1 = tmp + (0x3fffffff + 2 * (val prime ! j) - (val a ! j));
          a1 = a\<lparr>val := (val a)[j := ((tmp1 AND 0x3fffffff) AND cond) OR ((val a ! j) AND NOT cond)]\<rparr>
      in (drop_bit 30 tmp1, a1))"

function cn_loop :: "u32 \<Rightarrow> bignum256 \<Rightarrow> nat \<Rightarrow> u32 \<times> bignum256 \<Rightarrow> u32 \<times> bignum256" where
  "cn_loop cond prime j s =
     (if j < 8 then cn_loop cond prime (j + 1) (cn_step cond prime j s) else s)"
  by pat_completeness auto
termination
  by (relation "measure (\<lambda>(cond, prime, j, s). 8 - j)") auto

declare cn_loop.simps [simp del]

text \<open>
  After the loop \<open>j = 8\<close>; the last limb is computed without the final shift of
  \<^verbatim>\<open>tmp\<close>. Both \<^verbatim>\<open>assert\<close>s are checks of the model.
\<close>

definition conditional_negate :: "u32 \<Rightarrow> bignum256 \<Rightarrow> bignum256 \<Rightarrow> fault + bignum256" where
  "conditional_negate cond a prime =
     (if \<not> val a ! 8 < 0x20000 then Inl AssertFailed
      else
        let s = cn_loop cond prime 0 (1, a);
            tmp = fst s; a1 = snd s;
            tmp1 = tmp + (0x3fffffff + 2 * (val prime ! 8) - (val a1 ! 8));
            a2 = a1\<lparr>val := (val a1)[8 := ((tmp1 AND 0x3fffffff) AND cond) OR ((val a1 ! 8) AND NOT cond)]\<rparr>
        in if \<not> val a2 ! 8 < 0x20000 then Inl AssertFailed else Inr a2)"

section \<open>The modular arithmetic of bignum.c\<close>

text \<open>
  ecdsa.c calls the arithmetic of bignum.c, which bignum.h declares and whose bodies are
  not part of the sources. The spec allows them partly reduced results (lazy
  reduction), so their results are not determined by the spec. They are parameters of
  the model: one field per function, with the C arguments in the C order and the
  updated (or output) number as result. Where a claim depends on what they compute,
  its theorem assumes the contract stated further down.
\<close>

record bn_ops =
  bn_read_be :: "u8 list \<Rightarrow> bignum256"
  bn_write_be :: "bignum256 \<Rightarrow> u8 list"
  bn_cmov :: "bool \<Rightarrow> bignum256 \<Rightarrow> bignum256 \<Rightarrow> bignum256"
  bn_lshift :: "bignum256 \<Rightarrow> bignum256"
  bn_mult_half :: "bignum256 \<Rightarrow> bignum256 \<Rightarrow> bignum256"
  bn_mult_k :: "bignum256 \<Rightarrow> u8 \<Rightarrow> bignum256 \<Rightarrow> bignum256"
  bn_mod :: "bignum256 \<Rightarrow> bignum256 \<Rightarrow> bignum256"
  bn_multiply :: "bignum256 \<Rightarrow> bignum256 \<Rightarrow> bignum256 \<Rightarrow> bignum256"
  bn_fast_mod :: "bignum256 \<Rightarrow> bignum256 \<Rightarrow> bignum256"
  bn_sqrt :: "bignum256 \<Rightarrow> bignum256 \<Rightarrow> bignum256"
  bn_inverse :: "bignum256 \<Rightarrow> bignum256 \<Rightarrow> bignum256"
  bn_add :: "bignum256 \<Rightarrow> bignum256 \<Rightarrow> bignum256"
  bn_addmod :: "bignum256 \<Rightarrow> bignum256 \<Rightarrow> bignum256 \<Rightarrow> bignum256"
  bn_subi :: "bignum256 \<Rightarrow> u32 \<Rightarrow> bignum256 \<Rightarrow> bignum256"
  bn_subtractmod :: "bignum256 \<Rightarrow> bignum256 \<Rightarrow> bignum256 \<Rightarrow> bignum256"
  bn_subtract :: "bignum256 \<Rightarrow> bignum256 \<Rightarrow> bignum256"

section \<open>Curves, Jacobian points and the state outside a call\<close>

text \<open>
  Modelled from the spec: \<^verbatim>\<open>ecdsa_curve\<close> is declared in ecdsa.h, which is not part of the
  sources. The spec's curve parameters are the prime, the order, \<open>a\<close> (a C \<^verbatim>\<open>int\<close>),
  \<open>b\<close>, the base point \<open>G\<close> and the optional table \<^verbatim>\<open>cp[64][8]\<close> of
  \<open>(2j+1) * 16^i * G\<close>.
\<close>

record ecdsa_curve =
  curve_prime :: bignum256
  curve_G :: curve_point
  curve_order :: bignum256
  curve_a :: int
  curve_b :: bignum256
  curve_cp :: "curve_point list list"

record jacobian_curve_point =
  jp_x :: bignum256
  jp_y :: bignum256
  jp_z :: bignum256

text \<open>
  What a call reads and leaves behind outside its frame: how many values have been
  taken from \<^verbatim>\<open>random32()\<close>, and the \<^verbatim>\<open>static\<close> locals \<^verbatim>\<open>a\<close> and \<^verbatim>\<open>jres\<close> of
  \<^verbatim>\<open>point_multiply\<close> and of \<^verbatim>\<open>scalar_multiply\<close>. The random source itself is the sequence
  \<open>rnd\<close> of the values \<^verbatim>\<open>random32()\<close> returns.
\<close>

record world =
  rng_count :: nat
  pm_a :: bignum256
  pm_jres :: jacobian_curve_point
  sm_a :: bignum256
  sm_jres :: jacobian_curve_point

text \<open>\<^verbatim>\<open>memzero(&jres, sizeof(jres))\<close>\<close>

definition jres_zero :: jacobian_curve_point where
  "jres_zero = \<lparr>jp_x = bn_zero, jp_y = bn_zero, jp_z = bn_zero\<rparr>"

text \<open>
  Sequencing for code that may fail an assertion (\<open>Inl\<close>) or never return
  (\<open>None\<close>).
\<close>

definition obnd :: "(fault + 'a) option \<Rightarrow> ('a \<Rightarrow> (fault + 'b) option) \<Rightarrow> (fault + 'b) option" where
  "obnd m f = (case m of None \<Rightarrow> None | Some (Inl e) \<Rightarrow> Some (Inl e) | Some (Inr x) \<Rightarrow> f x)"

section \<open>Affine addition and doubling (ecdsa.c)\<close>

definition point_double :: "bn_ops \<Rightarrow> ecdsa_curve \<Rightarrow> curve_point \<Rightarrow> curve_point" where
  "point_double ops curve cp =
     (if point_is_infinity cp then cp
      else if bn_is_zero (pt_y cp) then point_set_infinity
      else
        let prime = curve_prime curve;
            lambda = pt_y cp;
            lambda = bn_mult_k ops lambda 2 prime;
            lambda = bn_inverse ops lambda prime;
            xr = pt_x cp;
            xr = bn_multiply ops xr xr prime;
            xr = bn_mult_k ops xr 3 prime;
            xr = bn_subi ops xr (word_of_int (- curve_a curve)) prime;
            lambda = bn_multiply ops xr lambda prime;
            xr = lambda;
            xr = bn_multiply ops xr xr prime;
            yr = pt_x cp;
            yr = bn_lshift ops yr;
            xr = bn_subtractmod ops xr yr prime;
            xr = bn_fast_mod ops xr prime;
            xr = bn_mod ops xr prime;
            yr = bn_subtractmod ops (pt_x cp) xr prime;
            yr = bn_multiply ops lambda yr prime;
            yr = bn_subtractmod ops yr (pt_y cp) prime;
            yr = bn_fast_mod ops yr prime;
            yr = bn_mod ops yr prime
        in \<lparr>pt_x = xr, pt_y = yr\<rparr>)"

text \<open>\<^verbatim>\<open>cp2 = cp1 + cp2\<close>: the result is the new \<^verbatim>\<open>*cp2\<close>.\<close>

definition point_add :: "bn_ops \<Rightarrow> ecdsa_curve \<Rightarrow> curve_point \<Rightarrow> curve_point \<Rightarrow> curve_point" where
  "point_add ops curve cp1 cp2 =
     (if point_is_infinity cp1 then cp2
      else if point_is_infinity cp2 then point_copy cp1
      else if point_is_equal cp1 cp2 then point_double ops curve cp2
      else if point_is_negative_of cp1 cp2 then point_set_infinity
      else
        let prime = curve_prime curve;
            inv = bn_subtractmod ops (pt_x cp2) (pt_x cp1) prime;
            inv = bn_inverse ops inv prime;
            lambda = bn_subtractmod ops (pt_y cp2) (pt_y cp1) prime;
            lambda = bn_multiply ops inv lambda prime;
            xr = lambda;
            xr = bn_multiply ops xr xr prime;
            yr = pt_x cp1;
            yr = bn_addmod ops yr (pt_x cp2) prime;
            xr = bn_subtractmod ops xr yr prime;
            xr = bn_fast_mod ops xr prime;
            xr = bn_mod ops xr prime;
            yr = bn_subtractmod ops (pt_x cp1) xr prime;
            yr = bn_multiply ops lambda yr prime;
            yr = bn_subtractmod ops yr (pt_y cp1) prime;
            yr = bn_fast_mod ops yr prime;
            yr = bn_mod ops yr prime
        in \<lparr>pt_x = xr, pt_y = yr\<rparr>)"

section \<open>Jacobian points (ecdsa.c)\<close>

text \<open>
  One pass of the body of the \<^verbatim>\<open>do\<close> loop of \<^verbatim>\<open>generate_k_random\<close> takes nine values
  from \<^verbatim>\<open>random32()\<close>, the values number \<open>n\<close> to \<open>n + 8\<close>, and overwrites all nine
  limbs of \<open>k\<close>.
\<close>

definition draw_k :: "(nat \<Rightarrow> u32) \<Rightarrow> nat \<Rightarrow> bignum256" where
  "draw_k rnd n =
     \<lparr>val = [rnd n AND 0x3FFFFFFF, rnd (n + 1) AND 0x3FFFFFFF, rnd (n + 2) AND 0x3FFFFFFF,
             rnd (n + 3) AND 0x3FFFFFFF, rnd (n + 4) AND 0x3FFFFFFF, rnd (n + 5) AND 0x3FFFFFFF,
             rnd (n + 6) AND 0x3FFFFFFF, rnd (n + 7) AND 0x3FFFFFFF, rnd (n + 8) AND 0xFFFF]\<rparr>"

text \<open>The loop may run forever: \<open>None\<close> is not returning.\<close>

partial_function (option) generate_k_random ::
  "(nat \<Rightarrow> u32) \<Rightarrow> bignum256 \<Rightarrow> nat \<Rightarrow> (bignum256 \<times> nat) option" where
  "generate_k_random rnd prime n =
     (let k = draw_k rnd n
      in if bn_is_zero k \<or> \<not> bn_is_less k prime then generate_k_random rnd prime (n + 9)
         else Some (k, n + 9))"

definition curve_to_jacobian ::
  "bn_ops \<Rightarrow> (nat \<Rightarrow> u32) \<Rightarrow> curve_point \<Rightarrow> bignum256 \<Rightarrow> nat \<Rightarrow> (jacobian_curve_point \<times> nat) option" where
  "curve_to_jacobian ops rnd p prime n =
     (case generate_k_random rnd prime n of
        None \<Rightarrow> None
      | Some (z, n') \<Rightarrow>
          let jx = z;
              jx = bn_multiply ops z jx prime;
              jy = jx;
              jy = bn_multiply ops z jy prime;
              jx = bn_multiply ops (pt_x p) jx prime;
              jy = bn_multiply ops (pt_y p) jy prime
          in Some (\<lparr>jp_x = jx, jp_y = jy, jp_z = z\<rparr>, n'))"

definition jacobian_to_curve :: "bn_ops \<Rightarrow> jacobian_curve_point \<Rightarrow> bignum256 \<Rightarrow> curve_point" where
  "jacobian_to_curve ops jp prime =
     (let py = jp_z jp;
          py = bn_inverse ops py prime;
          px = py;
          px = bn_multiply ops px px prime;
          py = bn_multiply ops px py prime;
          px = bn_multiply ops (jp_x jp) px prime;
          py = bn_multiply ops (jp_y jp) py prime;
          px = bn_mod ops px prime;
          py = bn_mod ops py prime
      in \<lparr>pt_x = px, pt_y = py\<rparr>)"

text \<open>
  \<^verbatim>\<open>az\<close> is assigned only when \<open>a \<noteq> 0\<close> and read only then: it is an option.
\<close>

definition point_jacobian_add ::
  "bn_ops \<Rightarrow> curve_point \<Rightarrow> jacobian_curve_point \<Rightarrow> ecdsa_curve \<Rightarrow> fault + jacobian_curve_point" where
  "point_jacobian_add ops p1 p2 curve =
     (let prime = curve_prime curve; a = curve_a curve in
      if \<not> (- 3 \<le> a \<and> a \<le> 0) then Inl AssertFailed
      else
        let xz = jp_z p2;
            xz = bn_multiply ops xz xz prime;
            yz = jp_z p2;
            yz = bn_multiply ops xz yz prime;
            az = (if a \<noteq> 0
                  then (let az = xz;
                            az = bn_multiply ops az az prime;
                            az = bn_mult_k ops az (word_of_int (- a)) prime
                        in Some az)
                  else None);
            xz = bn_multiply ops (pt_x p1) xz prime;
            h = xz;
            h = bn_subtractmod ops h (jp_x p2) prime;
            h = bn_fast_mod ops h prime;
            xz = bn_add ops xz (jp_x p2);
            is_doubling = bn_is_equal h prime;
            yz = bn_multiply ops (pt_y p1) yz prime;
            r = bn_subtractmod ops yz (jp_y p2) prime;
            yz = bn_add ops yz (jp_y p2);
            r2 = jp_x p2;
            r2 = bn_multiply ops r2 r2 prime;
            r2 = bn_mult_k ops r2 3 prime;
            r2 = (case az of Some az' \<Rightarrow> bn_subtractmod ops r2 az' prime | None \<Rightarrow> r2);
            r = bn_cmov ops is_doubling r2 r;
            h = bn_cmov ops is_doubling yz h;
            hsqx = h;
            hsqx = bn_multiply ops hsqx hsqx prime;
            hcby = h;
            hcby = bn_multiply ops hsqx hcby prime;
            hsqx = bn_multiply ops xz hsqx prime;
            hcby = bn_multiply ops yz hcby prime;
            z3 = bn_multiply ops h (jp_z p2) prime;
            x3 = r;
            x3 = bn_multiply ops x3 x3 prime;
            x3 = bn_subtractmod ops x3 hsqx prime;
            x3 = bn_fast_mod ops x3 prime;
            y3 = bn_subtractmod ops hsqx x3 prime;
            y3 = bn_subtractmod ops y3 x3 prime;
            y3 = bn_multiply ops r y3 prime;
            y3 = bn_subtractmod ops y3 hcby prime;
            y3 = bn_mult_half ops y3 prime;
            y3 = bn_fast_mod ops y3 prime
        in Inr \<lparr>jp_x = x3, jp_y = y3, jp_z = z3\<rparr>)"

definition point_jacobian_double ::
  "bn_ops \<Rightarrow> jacobian_curve_point \<Rightarrow> ecdsa_curve \<Rightarrow> fault + jacobian_curve_point" where
  "point_jacobian_double ops p curve =
     (let prime = curve_prime curve in
      if \<not> (- 3 \<le> curve_a curve \<and> curve_a curve \<le> 0) then Inl AssertFailed
      else
        let m = jp_x p;
            m = bn_multiply ops m m prime;
            m = bn_mult_k ops m 3 prime;
            az4 = jp_z p;
            az4 = bn_multiply ops az4 az4 prime;
            az4 = bn_multiply ops az4 az4 prime;
            az4 = bn_mult_k ops az4 (word_of_int (- curve_a curve)) prime;
            m = bn_subtractmod ops m az4 prime;
            m = bn_mult_half ops m prime;
            msq = m;
            msq = bn_multiply ops msq msq prime;
            ysq = jp_y p;
            ysq = bn_multiply ops ysq ysq prime;
            xysq = jp_x p;
            xysq = bn_multiply ops ysq xysq prime;
            z3 = bn_multiply ops (jp_y p) (jp_z p) prime;
            x3 = xysq;
            x3 = bn_lshift ops x3;
            x3 = bn_fast_mod ops x3 prime;
            x3 = bn_subtractmod ops msq x3 prime;
            x3 = bn_fast_mod ops x3 prime;
            y3 = bn_subtractmod ops xysq x3 prime;
            y3 = bn_multiply ops m y3 prime;
            ysq = bn_multiply ops ysq ysq prime;
            y3 = bn_subtractmod ops y3 ysq prime;
            y3 = bn_fast_mod ops y3 prime
        in Inr \<lparr>jp_x = x3, jp_y = y3, jp_z = z3\<rparr>)"

section \<open>Scalar multiplication (ecdsa.c)\<close>

text \<open>
  The prelude that \<^verbatim>\<open>point_multiply\<close> and \<^verbatim>\<open>scalar_multiply\<close> share: \<^verbatim>\<open>a = k + 2^256\<close>, less
  the order when \<open>k\<close> is even, written limb by limb into the static \<^verbatim>\<open>a\<close>, and
  \<^verbatim>\<open>is_non_zero\<close>, the bitwise or of the limbs of \<open>k\<close>. The loop state is
  \<^verbatim>\<open>(tmp, is_non_zero, a)\<close>.
\<close>

definition recode_step ::
  "bignum256 \<Rightarrow> bignum256 \<Rightarrow> u32 \<Rightarrow> nat \<Rightarrow> u32 \<times> u32 \<times> bignum256 \<Rightarrow> u32 \<times> u32 \<times> bignum256" where
  "recode_step k order is_even j s =
     (let tmp = fst s; is_non_zero = fst (snd s); a = snd (snd s);
          is_non_zero = is_non_zero OR (val k ! j);
          tmp = tmp + (0x3fffffff + (val k ! j) - ((val order ! j) AND is_even));
          a = a\<lparr>val := (val a)[j := tmp AND 0x3fffffff]\<rparr>;
          tmp = drop_bit 30 tmp
      in (tmp, is_non_zero, a))"

function recode_loop ::
  "bignum256 \<Rightarrow> bignum256 \<Rightarrow> u32 \<Rightarrow> nat \<Rightarrow> u32 \<times> u32 \<times> bignum256 \<Rightarrow> u32 \<times> u32 \<times> bignum256" where
  "recode_loop k order is_even j s =
     (if j < 8 then recode_loop k order is_even (j + 1) (recode_step k order is_even j s) else s)"
  by pat_completeness auto
termination
  by (relation "measure (\<lambda>(k, order, is_even, j, s). 8 - j)") auto

declare recode_loop.simps [simp del]

text \<open>The result is \<^verbatim>\<open>(is_non_zero, a)\<close> after the line that writes \<^verbatim>\<open>a.val[8]\<close>.\<close>

definition recode :: "bignum256 \<Rightarrow> bignum256 \<Rightarrow> bignum256 \<Rightarrow> u32 \<times> bignum256" where
  "recode k order a0 =
     (let is_even = ((val k ! 0) AND 1) - 1;
          s = recode_loop k order is_even 0 (1, 0, a0);
          tmp = fst s; is_non_zero = fst (snd s); a = snd (snd s);
          is_non_zero = is_non_zero OR (val k ! 8);
          a = a\<lparr>val := (val a)[8 := tmp + 0xffff + (val k ! 8) - ((val order ! 8) AND is_even)]\<rparr>
      in (is_non_zero, a))"

text \<open>
  The table \<^verbatim>\<open>pmult\<close> of \<^verbatim>\<open>point_multiply\<close>. The array is automatic storage; each entry
  is written before it is read, so what it holds before is not observable and the model
  starts from eight copies of \<open>p\<close>.
\<close>

definition pmult_step :: "bn_ops \<Rightarrow> ecdsa_curve \<Rightarrow> nat \<Rightarrow> curve_point list \<Rightarrow> curve_point list" where
  "pmult_step ops curve i pmult =
     (let pmult = pmult[i := pmult ! 7];
          pmult = pmult[i := point_add ops curve (pmult ! (i - 1)) (pmult ! i)]
      in pmult)"

function pmult_loop :: "bn_ops \<Rightarrow> ecdsa_curve \<Rightarrow> nat \<Rightarrow> curve_point list \<Rightarrow> curve_point list" where
  "pmult_loop ops curve i pmult =
     (if i < 8 then pmult_loop ops curve (i + 1) (pmult_step ops curve i pmult) else pmult)"
  by pat_completeness auto
termination
  by (relation "measure (\<lambda>(ops, curve, i, pmult). 8 - i)") auto

declare pmult_loop.simps [simp del]

definition pmult_table :: "bn_ops \<Rightarrow> ecdsa_curve \<Rightarrow> curve_point \<Rightarrow> curve_point list" where
  "pmult_table ops curve p =
     (let pmult = replicate 8 p;
          pmult = pmult[7 := p];
          pmult = pmult[7 := point_double ops curve (pmult ! 7)];
          pmult = pmult[0 := p]
      in pmult_loop ops curve 1 pmult)"

text \<open>The variables that the main loop of \<^verbatim>\<open>point_multiply\<close> carries from round to round.\<close>

record pm_vars =
  pv_jres :: jacobian_curve_point
  pv_aptr :: nat
  pv_abits :: u32
  pv_ashift :: int
  pv_sign :: u32

definition pm_round ::
  "bn_ops \<Rightarrow> ecdsa_curve \<Rightarrow> bignum256 \<Rightarrow> curve_point list \<Rightarrow> pm_vars \<Rightarrow> fault + pm_vars" where
  "pm_round ops curve a pmult v =
     bnd (point_jacobian_double ops (pv_jres v) curve) (\<lambda>jres.
     bnd (point_jacobian_double ops jres curve) (\<lambda>jres.
     bnd (point_jacobian_double ops jres curve) (\<lambda>jres.
     bnd (point_jacobian_double ops jres curve) (\<lambda>jres.
     let ashift = pv_ashift v - 4;
         w = (if ashift < 0
              then (let bits = push_bit (nat (- ashift)) (pv_abits v);
                        aptr = pv_aptr v - 1;
                        abits = val a ! aptr;
                        ashift = ashift + 30;
                        bits = bits OR drop_bit (nat ashift) abits
                    in (bits, abits, aptr, ashift))
              else (drop_bit (nat ashift) (pv_abits v), pv_abits v, pv_aptr v, ashift));
         bits = fst w; abits = fst (snd w); aptr = fst (snd (snd w)); ashift = snd (snd (snd w));
         bits = bits AND 31;
         nsign = drop_bit 4 bits - 1;
         bits = bits XOR nsign;
         bits = bits AND 15
     in
     bnd (conditional_negate (pv_sign v XOR nsign) (jp_z jres) (curve_prime curve)) (\<lambda>z.
     bnd (point_jacobian_add ops (pmult ! unat (drop_bit 1 bits)) (jres\<lparr>jp_z := z\<rparr>) curve) (\<lambda>jres.
     Inr \<lparr>pv_jres = jres, pv_aptr = aptr, pv_abits = abits, pv_ashift = ashift,
          pv_sign = nsign\<rparr>))))))"

text \<open>\<^verbatim>\<open>for (i = 62; i >= 0; i--)\<close>\<close>

function pm_loop ::
  "bn_ops \<Rightarrow> ecdsa_curve \<Rightarrow> bignum256 \<Rightarrow> curve_point list \<Rightarrow> int \<Rightarrow> pm_vars \<Rightarrow> fault + pm_vars" where
  "pm_loop ops curve a pmult i v =
     (if i \<ge> 0
      then (case pm_round ops curve a pmult v of
              Inl e \<Rightarrow> Inl e
            | Inr v' \<Rightarrow> pm_loop ops curve a pmult (i - 1) v')
      else Inr v)"
  by pat_completeness auto
termination
  by (relation "measure (\<lambda>(ops, curve, a, pmult, i, v). nat (i + 1))") auto

declare pm_loop.simps [simp del]

text \<open>
  \<^verbatim>\<open>res = k * p\<close>. The result is the new \<^verbatim>\<open>*res\<close> and the state left behind. \<open>res\<close> may be
  the same object as \<open>p\<close> (the recovery below calls it so): \<open>p\<close> is read only before \<open>res\<close>
  is written.
\<close>

definition point_multiply ::
  "bn_ops \<Rightarrow> (nat \<Rightarrow> u32) \<Rightarrow> ecdsa_curve \<Rightarrow> bignum256 \<Rightarrow> curve_point \<Rightarrow> world \<Rightarrow>
   (fault + curve_point \<times> world) option" where
  "point_multiply ops rnd curve k p st =
     (if \<not> bn_is_less k (curve_order curve) then Some (Inl AssertFailed)
      else
        let ra = recode k (curve_order curve) (pm_a st);
            is_non_zero = fst ra; a = snd ra
        in
        if \<not> ((val a ! 0) AND 1) \<noteq> 0 then Some (Inl AssertFailed)
        else if is_non_zero = 0 then Some (Inr (point_set_infinity, st\<lparr>pm_a := a\<rparr>))
        else
          let pmult = pmult_table ops curve p;
              aptr = 8;
              abits = val a ! aptr;
              ashift = 12;
              bits = drop_bit (nat ashift) abits;
              sign = drop_bit 4 bits - 1;
              bits = bits XOR sign;
              bits = bits AND 15
          in
          case curve_to_jacobian ops rnd (pmult ! unat (drop_bit 1 bits)) (curve_prime curve)
                 (rng_count st) of
            None \<Rightarrow> None
          | Some (jres, n') \<Rightarrow>
              Some (
                bnd (pm_loop ops curve a pmult 62
                       \<lparr>pv_jres = jres, pv_aptr = aptr, pv_abits = abits, pv_ashift = ashift,
                        pv_sign = sign\<rparr>) (\<lambda>v.
                bnd (conditional_negate (pv_sign v) (jp_z (pv_jres v)) (curve_prime curve)) (\<lambda>z.
                let res = jacobian_to_curve ops ((pv_jres v)\<lparr>jp_z := z\<rparr>) (curve_prime curve)
                in Inr (res, st\<lparr>rng_count := n', pm_a := bn_zero, pm_jres := jres_zero\<rparr>)))))"

text \<open>The base-point variant under \<^verbatim>\<open>#if USE_PRECOMPUTED_CP\<close>: first the shift of \<^verbatim>\<open>a\<close> by 4.\<close>

function shift4_loop :: "nat \<Rightarrow> bignum256 \<Rightarrow> bignum256" where
  "shift4_loop j a =
     (if j < 8
      then shift4_loop (j + 1)
             (a\<lparr>val := (val a)[j := drop_bit 4 (val a ! j) OR push_bit 26 ((val a ! (j + 1)) AND 0xf)]\<rparr>)
      else a)"
  by pat_completeness auto
termination
  by (relation "measure (\<lambda>(j, a). 8 - j)") auto

declare shift4_loop.simps [simp del]

definition sm_round ::
  "bn_ops \<Rightarrow> ecdsa_curve \<Rightarrow> nat \<Rightarrow> bignum256 \<times> jacobian_curve_point \<Rightarrow>
   fault + bignum256 \<times> jacobian_curve_point" where
  "sm_round ops curve i s =
     (let a = fst s; jres = snd s;
          a = shift4_loop 0 a;
          a = a\<lparr>val := (val a)[8 := drop_bit 4 (val a ! 8)]\<rparr>;
          lowbits = (val a ! 0) AND ((push_bit 5 1) - 1);
          lowbits = lowbits XOR (drop_bit 4 lowbits - 1);
          lowbits = lowbits AND 15
      in
      bnd (conditional_negate ((lowbits AND 1) - 1) (jp_y jres) (curve_prime curve)) (\<lambda>y.
      bnd (point_jacobian_add ops (curve_cp curve ! i ! unat (drop_bit 1 lowbits))
             (jres\<lparr>jp_y := y\<rparr>) curve) (\<lambda>jres.
      Inr (a, jres))))"

text \<open>\<^verbatim>\<open>for (i = 1; i < 64; i ++)\<close>\<close>

function sm_loop ::
  "bn_ops \<Rightarrow> ecdsa_curve \<Rightarrow> nat \<Rightarrow> bignum256 \<times> jacobian_curve_point \<Rightarrow>
   fault + bignum256 \<times> jacobian_curve_point" where
  "sm_loop ops curve i s =
     (if i < 64
      then (case sm_round ops curve i s of
              Inl e \<Rightarrow> Inl e
            | Inr s' \<Rightarrow> sm_loop ops curve (i + 1) s')
      else Inr s)"
  by pat_completeness auto
termination
  by (relation "measure (\<lambda>(ops, curve, i, s). 64 - i)") auto

declare sm_loop.simps [simp del]

definition scalar_multiply_cp ::
  "bn_ops \<Rightarrow> (nat \<Rightarrow> u32) \<Rightarrow> ecdsa_curve \<Rightarrow> bignum256 \<Rightarrow> world \<Rightarrow>
   (fault + curve_point \<times> world) option" where
  "scalar_multiply_cp ops rnd curve k st =
     (if \<not> bn_is_less k (curve_order curve) then Some (Inl AssertFailed)
      else
        let ra = recode k (curve_order curve) (sm_a st);
            is_non_zero = fst ra; a = snd ra
        in
        if \<not> ((val a ! 0) AND 1) \<noteq> 0 then Some (Inl AssertFailed)
        else if is_non_zero = 0 then Some (Inr (point_set_infinity, st\<lparr>sm_a := a\<rparr>))
        else
          let lowbits = (val a ! 0) AND ((push_bit 5 1) - 1);
              lowbits = lowbits XOR (drop_bit 4 lowbits - 1);
              lowbits = lowbits AND 15
          in
          case curve_to_jacobian ops rnd (curve_cp curve ! 0 ! unat (drop_bit 1 lowbits))
                 (curve_prime curve) (rng_count st) of
            None \<Rightarrow> None
          | Some (jres, n') \<Rightarrow>
              Some (
                bnd (sm_loop ops curve 1 (a, jres)) (\<lambda>s.
                let a = fst s; jres = snd s in
                bnd (conditional_negate ((drop_bit 4 (val a ! 0) AND 1) - 1) (jp_y jres)
                       (curve_prime curve)) (\<lambda>y.
                let res = jacobian_to_curve ops (jres\<lparr>jp_y := y\<rparr>) (curve_prime curve)
                in Inr (res, st\<lparr>rng_count := n', sm_a := bn_zero, sm_jres := jres_zero\<rparr>)))))"

text \<open>
  \<^verbatim>\<open>scalar_multiply\<close>: which of the two bodies is compiled depends on
  \<^verbatim>\<open>USE_PRECOMPUTED_CP\<close>, set in options.h, which is not part of the sources. It is a
  parameter.
\<close>

definition scalar_multiply ::
  "bool \<Rightarrow> bn_ops \<Rightarrow> (nat \<Rightarrow> u32) \<Rightarrow> ecdsa_curve \<Rightarrow> bignum256 \<Rightarrow> world \<Rightarrow>
   (fault + curve_point \<times> world) option" where
  "scalar_multiply USE_PRECOMPUTED_CP ops rnd curve k st =
     (if USE_PRECOMPUTED_CP then scalar_multiply_cp ops rnd curve k st
      else point_multiply ops rnd curve k (curve_G curve) st)"

section \<open>Public keys (ecdsa.c)\<close>

definition uncompress_coords :: "bn_ops \<Rightarrow> ecdsa_curve \<Rightarrow> u8 \<Rightarrow> bignum256 \<Rightarrow> bignum256" where
  "uncompress_coords ops curve odd' x =
     (let prime = curve_prime curve;
          y = x;
          y = bn_multiply ops x y prime;
          y = bn_subi ops y (word_of_int (- curve_a curve)) prime;
          y = bn_multiply ops x y prime;
          y = bn_add ops y (curve_b curve);
          y = bn_sqrt ops y prime
      in if unat (odd' AND 0x01) \<noteq> unat ((val y ! 0) AND 1) then bn_subtract ops prime y else y)"

definition ecdsa_validate_pubkey :: "bn_ops \<Rightarrow> ecdsa_curve \<Rightarrow> curve_point \<Rightarrow> int" where
  "ecdsa_validate_pubkey ops curve pub =
     (let prime = curve_prime curve in
      if point_is_infinity pub then 0
      else if \<not> bn_is_less (pt_x pub) prime \<or> \<not> bn_is_less (pt_y pub) prime then 0
      else
        let y_2 = pt_y pub;
            x3_ax_b = pt_x pub;
            y_2 = bn_multiply ops (pt_y pub) y_2 prime;
            y_2 = bn_mod ops y_2 prime;
            x3_ax_b = bn_multiply ops (pt_x pub) x3_ax_b prime;
            x3_ax_b = bn_subi ops x3_ax_b (word_of_int (- curve_a curve)) prime;
            x3_ax_b = bn_multiply ops (pt_x pub) x3_ax_b prime;
            x3_ax_b = bn_addmod ops x3_ax_b (curve_b curve) prime;
            x3_ax_b = bn_mod ops x3_ax_b prime
        in if \<not> bn_is_equal x3_ax_b y_2 then 0 else 1)"

text \<open>
  The result is the returned \<^verbatim>\<open>int\<close>, the content of \<^verbatim>\<open>pub_key\<close> and the state left
  behind. \<^verbatim>\<open>sig\<close> holds 64 bytes and \<^verbatim>\<open>digest\<close> 32; a shorter buffer is read past its end.
  \<^verbatim>\<open>pub_key\<close> holds 65 bytes.
\<close>

definition ecdsa_recover_pub_from_sig ::
  "bool \<Rightarrow> bn_ops \<Rightarrow> (nat \<Rightarrow> u32) \<Rightarrow> ecdsa_curve \<Rightarrow> u8 list \<Rightarrow> u8 list \<Rightarrow> u8 list \<Rightarrow> int \<Rightarrow> world \<Rightarrow>
   (fault + int \<times> u8 list \<times> world) option" where
  "ecdsa_recover_pub_from_sig USE_PRECOMPUTED_CP ops rnd curve pub_key sig digest recid st =
     obnd (Some (rd_bytes sig 0 32)) (\<lambda>sig_r.
     obnd (Some (rd_bytes sig 32 32)) (\<lambda>sig_s.
     let r = bn_read_be ops sig_r;
         s = bn_read_be ops sig_s
     in
     if \<not> bn_is_less r (curve_order curve) \<or> bn_is_zero r then Some (Inr (1, pub_key, st))
     else if \<not> bn_is_less s (curve_order curve) \<or> bn_is_zero s then Some (Inr (1, pub_key, st))
     else
       let cp_x = r;
           cp_x = (if recid AND 2 \<noteq> 0 then bn_add ops cp_x (curve_order curve) else cp_x)
       in
       if recid AND 2 \<noteq> 0 \<and> \<not> bn_is_less cp_x (curve_prime curve)
       then Some (Inr (1, pub_key, st))
       else
         let cp_y = uncompress_coords ops curve (word_of_int (recid AND 1)) cp_x;
             cp = \<lparr>pt_x = cp_x, pt_y = cp_y\<rparr>
         in
         if ecdsa_validate_pubkey ops curve cp = 0 then Some (Inr (1, pub_key, st))
         else
           obnd (Some (rd_bytes digest 0 32)) (\<lambda>digest_e.
           let e = bn_read_be ops digest_e;
               e = bn_subtractmod ops (curve_order curve) e (curve_order curve);
               e = bn_fast_mod ops e (curve_order curve);
               e = bn_mod ops e (curve_order curve);
               r = bn_inverse ops r (curve_order curve)
           in
           obnd (point_multiply ops rnd curve s cp st) (\<lambda>(cp, st).
           obnd (scalar_multiply USE_PRECOMPUTED_CP ops rnd curve e st) (\<lambda>(cp2, st).
           let cp = point_add ops curve cp2 cp in
           obnd (point_multiply ops rnd curve r cp st) (\<lambda>(cp, st).
           let pub_key = pub_key[0 := 0x04];
               pub_key = memcpy_at pub_key 1 (bn_write_be ops (pt_x cp));
               pub_key = memcpy_at pub_key 33 (bn_write_be ops (pt_y cp))
           in Some (Inr (0, pub_key, st))))))))"

section \<open>Contracts and a reference instance of the arithmetic\<close>

text \<open>
  Modelled from the spec: what the absent bodies of \<^verbatim>\<open>bn_multiply\<close>, \<^verbatim>\<open>bn_mod\<close>, \<^verbatim>\<open>bn_subi\<close>
  and \<^verbatim>\<open>bn_addmod\<close> are assumed to compute, for a modulus \<open>p\<close>. The spec's two tiers of
  reduction are \<open>partly_reduced\<close> (normalized limbs, value below \<open>2 * p\<close>: the result of
  multiply and of the fast reduction) and the canonical range \<open>[0, p)\<close> (the result of
  \<^verbatim>\<open>bn_mod\<close> on a partly reduced number). Operands are \<open>bounded\<close>: normalized limbs and a
  value below \<open>4 * p\<close>, which covers every operand that the functions above pass where
  the contracts are used.
  \<^verbatim>\<open>bn_subi(a, b, prime)\<close> subtracts a small constant modulo the prime (the callers pass
  \<open>- a\<close> of the curve, at most 3) and stays bounded; \<^verbatim>\<open>bn_addmod\<close> adds and reduces partly.
\<close>

definition partly_reduced :: "bignum256 \<Rightarrow> bignum256 \<Rightarrow> bool" where
  "partly_reduced p x \<longleftrightarrow> bn_norm x \<and> bn_val x < 2 * bn_val p"

definition bounded :: "bignum256 \<Rightarrow> bignum256 \<Rightarrow> bool" where
  "bounded p x \<longleftrightarrow> bn_norm x \<and> bn_val x < 4 * bn_val p"

definition multiply_contract :: "bn_ops \<Rightarrow> bignum256 \<Rightarrow> bool" where
  "multiply_contract ops p \<longleftrightarrow>
     (\<forall>k x. bounded p k \<and> bounded p x \<longrightarrow>
        partly_reduced p (bn_multiply ops k x p) \<and>
        bn_val (bn_multiply ops k x p) mod bn_val p = (bn_val k * bn_val x) mod bn_val p)"

definition mod_contract :: "bn_ops \<Rightarrow> bignum256 \<Rightarrow> bool" where
  "mod_contract ops p \<longleftrightarrow>
     (\<forall>x. partly_reduced p x \<longrightarrow>
        bn_norm (bn_mod ops x p) \<and> bn_val (bn_mod ops x p) = bn_val x mod bn_val p)"

definition subi_contract :: "bn_ops \<Rightarrow> bignum256 \<Rightarrow> bool" where
  "subi_contract ops p \<longleftrightarrow>
     (\<forall>x b. partly_reduced p x \<and> unat b \<le> 3 \<longrightarrow>
        bounded p (bn_subi ops x b p) \<and>
        (bn_val (bn_subi ops x b p) + unat b) mod bn_val p = bn_val x mod bn_val p)"

definition addmod_contract :: "bn_ops \<Rightarrow> bignum256 \<Rightarrow> bool" where
  "addmod_contract ops p \<longleftrightarrow>
     (\<forall>x y. bounded p x \<and> bounded p y \<longrightarrow>
        partly_reduced p (bn_addmod ops x y p) \<and>
        bn_val (bn_addmod ops x y p) mod bn_val p = (bn_val x + bn_val y) mod bn_val p)"

text \<open>
  Modelled from the spec: a reference instance of the arithmetic, for the concrete
  examples below. Each function computes on the numbers that the limb arrays stand for
  and returns the normalized limb array of the result; byte strings are big-endian;
  the inverse is the power \<open>p - 2\<close> and the square root the power \<open>(p + 1) div 4\<close>, as
  the spec says. Every result is normalized, and fully reduced where the function
  reduces at all.
\<close>

definition bn_of_nat :: "nat \<Rightarrow> bignum256" where
  "bn_of_nat n =
     \<lparr>val = [of_nat (n mod 2 ^ 30), of_nat (n div 2 ^ 30 mod 2 ^ 30),
             of_nat (n div 2 ^ 60 mod 2 ^ 30), of_nat (n div 2 ^ 90 mod 2 ^ 30),
             of_nat (n div 2 ^ 120 mod 2 ^ 30), of_nat (n div 2 ^ 150 mod 2 ^ 30),
             of_nat (n div 2 ^ 180 mod 2 ^ 30), of_nat (n div 2 ^ 210 mod 2 ^ 30),
             of_nat (n div 2 ^ 240)]\<rparr>"

fun be_val :: "nat \<Rightarrow> u8 list \<Rightarrow> nat" where
  "be_val acc [] = acc"
| "be_val acc (b # bs) = be_val (acc * 256 + unat b) bs"

fun be_bytes :: "nat \<Rightarrow> nat \<Rightarrow> u8 list" where
  "be_bytes 0 n = []"
| "be_bytes (Suc len) n = be_bytes len (n div 256) @ [of_nat (n mod 256)]"

definition ref_ops :: bn_ops where
  "ref_ops =
     \<lparr>bn_read_be = (\<lambda>bytes. bn_of_nat (be_val 0 bytes)),
      bn_write_be = (\<lambda>a. be_bytes 32 (bn_val a)),
      bn_cmov = (\<lambda>cond truecase falsecase. if cond then truecase else falsecase),
      bn_lshift = (\<lambda>a. bn_of_nat (2 * bn_val a)),
      bn_mult_half = (\<lambda>x p. bn_of_nat
         (if even (bn_val x mod bn_val p) then bn_val x mod bn_val p div 2
          else (bn_val x mod bn_val p + bn_val p) div 2)),
      bn_mult_k = (\<lambda>x k p. bn_of_nat (unat k * bn_val x mod bn_val p)),
      bn_mod = (\<lambda>x p. bn_of_nat (bn_val x mod bn_val p)),
      bn_multiply = (\<lambda>k x p. bn_of_nat (bn_val k * bn_val x mod bn_val p)),
      bn_fast_mod = (\<lambda>x p. bn_of_nat (bn_val x mod bn_val p)),
      bn_sqrt = (\<lambda>x p. bn_of_nat (bn_val x ^ ((bn_val p + 1) div 4) mod bn_val p)),
      bn_inverse = (\<lambda>x p. bn_of_nat (bn_val x ^ (bn_val p - 2) mod bn_val p)),
      bn_add = (\<lambda>a b. bn_of_nat (bn_val a + bn_val b)),
      bn_addmod = (\<lambda>a b p. bn_of_nat ((bn_val a + bn_val b) mod bn_val p)),
      bn_subi = (\<lambda>a b p. bn_of_nat ((bn_val a + 3 * bn_val p - unat b) mod bn_val p)),
      bn_subtractmod = (\<lambda>a b p. bn_of_nat ((bn_val a + 2 * bn_val p - bn_val b) mod bn_val p)),
      bn_subtract = (\<lambda>a b. bn_of_nat (bn_val a - bn_val b))\<rparr>"

section \<open>The spec's notions and a loop invariant\<close>

text \<open>
  A sample that the loop of \<^verbatim>\<open>generate_k_random\<close> accepts: the negation of its loop
  condition.
\<close>

definition good_k :: "bignum256 \<Rightarrow> bignum256 \<Rightarrow> bool" where
  "good_k p k \<longleftrightarrow> \<not> bn_is_zero k \<and> bn_is_less k p"

text \<open>The spec's curve equation: \<open>y\<^sup>2 \<equiv> x\<^sup>3 + a x + b\<close> modulo the prime.\<close>

definition on_curve :: "ecdsa_curve \<Rightarrow> curve_point \<Rightarrow> bool" where
  "on_curve curve pub \<longleftrightarrow>
     (int (bn_val (pt_y pub)))\<^sup>2 mod int (bn_val (curve_prime curve)) =
     ((int (bn_val (pt_x pub))) ^ 3 + curve_a curve * int (bn_val (pt_x pub)) +
       int (bn_val (curve_b curve))) mod int (bn_val (curve_prime curve))"

text \<open>
  The invariant of the loop of \<^verbatim>\<open>conditional_negate\<close> with \<^verbatim>\<open>cond = 0xffffffff\<close>, before
  round \<open>j\<close>, for the initial array \<open>a0\<close>: the limbs from \<open>j\<close> on are untouched, the
  carry \<^verbatim>\<open>tmp\<close> is at most 2, the new lower limbs are below \<open>2 ^ 30\<close>, and new lower limbs
  plus carry plus old lower limbs make \<open>2 ^ (30 * j)\<close> plus twice the lower limbs of the
  modulus.
\<close>

definition cn_inv :: "bignum256 \<Rightarrow> bignum256 \<Rightarrow> nat \<Rightarrow> u32 \<times> bignum256 \<Rightarrow> bool" where
  "cn_inv a0 prime j s \<longleftrightarrow>
     length (val (snd s)) = 9 \<and> drop j (val (snd s)) = drop j (val a0) \<and> unat (fst s) \<le> 2 \<and>
     list_all (\<lambda>w. w < 2 ^ 30) (take j (val (snd s))) \<and>
     limbs_val (take j (val (snd s))) + unat (fst s) * 2 ^ (30 * j) + limbs_val (take j (val a0))
       = 2 ^ (30 * j) + 2 * limbs_val (take j (val prime))"

section \<open>Concrete inputs of the examples\<close>

text \<open>
  The limb array of a number below \<open>2 ^ 30\<close>, and the prime and the group order of
  secp256k1 (\<open>2 ^ 256 - 2 ^ 32 - 977\<close> and
  \<^verbatim>\<open>FFFFFFFF FFFFFFFF FFFFFFFF FFFFFFFE BAAEDCE6 AF48A03B BFD25E8C D0364141\<close>) as limb
  arrays. They are inputs of the examples below.
\<close>

definition bn_lit :: "u32 \<Rightarrow> bignum256" where
  "bn_lit w = \<lparr>val = [w, 0, 0, 0, 0, 0, 0, 0, 0]\<rparr>"

definition secp256k1_prime :: bignum256 where
  "secp256k1_prime =
     \<lparr>val = [0x3ffffc2f, 0x3ffffffb, 0x3fffffff, 0x3fffffff, 0x3fffffff,
             0x3fffffff, 0x3fffffff, 0x3fffffff, 0xffff]\<rparr>"

definition secp256k1_order :: bignum256 where
  "secp256k1_order =
     \<lparr>val = [0x10364141, 0x3f497a33, 0x348a03bb, 0x2bb739ab, 0x3ffffeba,
             0x3fffffff, 0x3fffffff, 0x3fffffff, 0xffff]\<rparr>"

text \<open>
  The curve secp256k1 as an input of the examples: \<open>y\<^sup>2 = x\<^sup>3 + 7\<close>, with its base
  point. The table \<^verbatim>\<open>cp\<close> is build-time data outside the sources; the examples do not
  read it and it is left empty.
\<close>

definition secp256k1_G :: curve_point where
  "secp256k1_G =
     \<lparr>pt_x = \<lparr>val = [0x16f81798, 0x27ca056c, 0x1ce28d95, 0x26ff36cb, 0x70b0702,
                      0x18a573a, 0xbbac55a, 0x199fbe77, 0x79be]\<rparr>,
      pt_y = \<lparr>val = [0x3b10d4b8, 0x311f423f, 0x28554199, 0x5ed1229, 0x1108a8fd,
                      0x13eff038, 0x3c4655da, 0x369dc9a8, 0x483a]\<rparr>\<rparr>"

definition secp256k1 :: ecdsa_curve where
  "secp256k1 =
     \<lparr>curve_prime = secp256k1_prime, curve_G = secp256k1_G, curve_order = secp256k1_order,
      curve_a = 0, curve_b = bn_lit 7, curve_cp = []\<rparr>"

text \<open>
  The state before the first call: no random value taken yet, and the statics
  zero-initialized as C does.
\<close>

definition world0 :: world where
  "world0 = \<lparr>rng_count = 0, pm_a = bn_zero, pm_jres = jres_zero, sm_a = bn_zero,
             sm_jres = jres_zero\<rparr>"

text \<open>
  Signatures for the examples of the recovery: \<open>r = 2 ^ 255\<close> and \<open>s = 1\<close>, for which
  \<open>r\<close> plus the order of secp256k1 is not below its prime; and \<open>r = s = 1\<close>. The toy
  curve \<open>y\<^sup>2 = x\<^sup>3 + 7\<close> over the field of 11 elements (12 points) has no point with
  \<open>x = 1\<close>.
\<close>

definition sig_x_overflow :: "u8 list" where
  "sig_x_overflow = [0x80] @ replicate 31 0 @ replicate 31 0 @ [0x01]"

definition sig_r1_s1 :: "u8 list" where
  "sig_r1_s1 = replicate 31 0 @ [0x01] @ replicate 31 0 @ [0x01]"

definition toy_curve :: ecdsa_curve where
  "toy_curve =
     \<lparr>curve_prime = bn_lit 11, curve_G = \<lparr>pt_x = bn_lit 2, pt_y = bn_lit 2\<rparr>,
      curve_order = bn_lit 12, curve_a = 0, curve_b = bn_lit 7, curve_cp = []\<rparr>"

text \<open>
  Three random sources for the examples: one whose first nine values make the sample
  \<open>2 ^ 256 - 2 ^ 33\<close>, which lies between the order and the prime of secp256k1; one
  whose first nine values make the sample zero and the next nine the sample 5; and one
  that yields zero for ever, so that every sample is zero.
\<close>

definition rnd_high :: "nat \<Rightarrow> u32" where
  "rnd_high i = (if i = 0 then 0 else if i = 1 then 0x3ffffff8 else 0xffffffff)"

definition rnd_retry :: "nat \<Rightarrow> u32" where
  "rnd_retry i = (if i = 9 then 5 else 0)"

definition rnd_zero :: "nat \<Rightarrow> u32" where
  "rnd_zero i = 0"

section \<open>Properties of the DER decoder\<close>

lemma rd_der_signature:
  "rd (a # b # c # d # r @ e # f # s) 0 = Inr a"
  "rd (a # b # c # d # r @ e # f # s) 1 = Inr b"
  "rd (a # b # c # d # r @ e # f # s) 2 = Inr c"
  "rd (a # b # c # d # r @ e # f # s) 3 = Inr d"
  "rd (a # b # c # d # r @ e # f # s) (4 + length r) = Inr e"
  "rd (a # b # c # d # r @ e # f # s) (4 + length r + 1) = Inr f"
  by (simp_all add: rd_def nth_append)

lemma rd_bytes_mid:
  "k \<le> length r \<Longrightarrow>
   rd_bytes (pre @ r @ rest) (length pre + k) (length r - k) = Inr (drop k r)"
  by (simp add: rd_bytes_def)

lemma rd_bytes_first:
  "k \<le> length r \<Longrightarrow>
   rd_bytes (a # b # c # d # r @ rest) (4 + k) (length r - k) = Inr (drop k r)"
  using rd_bytes_mid [of k r "[a, b, c, d]" rest] by (simp add: eval_nat_numeral)

lemma rd_bytes_second:
  "k \<le> length s \<Longrightarrow>
   rd_bytes (a # b # c # d # r @ e # f # s) (4 + length r + 2 + k) (length s - k) =
   Inr (drop k s)"
  using rd_bytes_mid [of k s "a # b # c # d # r @ [e, f]" "[]"]
  by (simp add: eval_nat_numeral add.commute)

lemma store_integer_first:
  assumes "length sig = 64"
  shows "store_integer (a # b # c # d # r @ rest) sig 0 4 (length r) =
         Inr (spec_fixed32 r @ drop 32 sig)"
proof (cases "length r < 32")
  case True
  then show ?thesis
    using rd_bytes_first [of 0 r a b c d rest] assms
    by (simp add: store_integer_def bnd_def memset0_at_def memcpy_at_def spec_fixed32_def)
next
  case False
  then have "32 \<le> length r" by simp
  then show ?thesis
    using rd_bytes_first [of "length r - 32" r a b c d rest] assms
    by (simp add: store_integer_def bnd_def memcpy_at_def spec_fixed32_def)
qed

lemma store_integer_second:
  assumes "length sig = 64"
  shows "store_integer (a # b # c # d # r @ e # f # s) sig 32 (4 + length r + 2) (length s) =
         Inr (take 32 sig @ spec_fixed32 s)"
proof (cases "length s < 32")
  case True
  then show ?thesis
    using rd_bytes_second [of 0 s a b c d r e f] assms
    by (simp add: store_integer_def bnd_def memset0_at_def memcpy_at_def spec_fixed32_def)
next
  case False
  then have "32 \<le> length s" by simp
  then show ?thesis
    using rd_bytes_second [of "length s - 32" s a b c d r e f] assms
    by (simp add: store_integer_def bnd_def memcpy_at_def spec_fixed32_def
        add.commute add.left_commute)
qed

lemma length_spec_fixed32: "length (spec_fixed32 bs) = 32"
  by (simp add: spec_fixed32_def)

lemma der_decode:
  assumes "length r + length s + 4 < 256"
  shows "ecdsa_der_to_sig (der_signature r s) = Inr (0, spec_fixed32 r @ spec_fixed32 s)"
proof -
  have lr: "unat (of_nat (length r) :: u8) = length r"
    using assms by (simp add: unat_of_nat)
  have ls: "unat (of_nat (length s) :: u8) = length s"
    using assms by (simp add: unat_of_nat)
  have lt: "unat (of_nat (length r) + of_nat (length s) + 4 :: u8) = length r + length s + 4"
    using assms unat_of_nat [where 'a = 8, of "length r + length s + 4"] by simp
  have s1: "store_integer (der_signature r s) (memzero SIGNATURE_SIZE_IN_ASN1) 0 4 (length r)
            = Inr (spec_fixed32 r @ replicate 32 0)"
    unfolding der_signature_def
    using store_integer_first [of "memzero SIGNATURE_SIZE_IN_ASN1" _ _ _ _ r]
    by (simp add: memzero_def SIGNATURE_SIZE_IN_ASN1_def)
  have s2: "store_integer (der_signature r s) (spec_fixed32 r @ replicate 32 0) 32
              (4 + length r + 2) (length s)
            = Inr (spec_fixed32 r @ spec_fixed32 s)"
    unfolding der_signature_def
    using store_integer_second [of "spec_fixed32 r @ replicate 32 0" _ _ _ _ r _ _ s]
    by (simp add: length_spec_fixed32)
  show ?thesis
    unfolding ecdsa_der_to_sig_def Let_def
    using s1 s2
      rd_der_signature [of "0x30" "of_nat (length r + length s + 4)" "0x02"
        "of_nat (length r)" r "0x02" "of_nat (length s)" s]
    by (simp add: bnd_def lr ls lt der_signature_def)
qed

text \<open>
  The first example of the spec: \<^verbatim>\<open>30 44 02 20 <32 bytes> 02 20 <32 bytes>\<close> decodes to the
  concatenation of the two 32-byte values.
\<close>

lemma der_decode_32_32:
  assumes "length r = 32" and "length s = 32"
  shows "ecdsa_der_to_sig ([0x30, 0x44, 0x02, 0x20] @ r @ [0x02, 0x20] @ s) = Inr (0, r @ s)"
  using der_decode [of r s] assms by (simp add: der_signature_def spec_fixed32_def)

text \<open>
  The other example: a 33-byte INTEGER whose first byte is the sign byte \<^verbatim>\<open>00\<close> decodes to
  the 32 bytes after it.
\<close>

lemma der_decode_sign_byte:
  assumes "length r = 32" and "length s = 32"
  shows "ecdsa_der_to_sig ([0x30, 0x45, 0x02, 0x21] @ (0x00 # r) @ [0x02, 0x20] @ s) =
         Inr (0, r @ s)"
  using der_decode [of "0x00 # r" s] assms by (simp add: der_signature_def spec_fixed32_def)

text \<open>
  Claim C6. On a well-formed DER signature (SEQUENCE tag, two INTEGERs with their tags,
  lengths consistent with the outer length) the decoder returns 0 and the output is the
  first INTEGER followed by the second, each as 32 big-endian bytes: left-padded with
  zero bytes when shorter than 32 bytes, its last 32 bytes when longer.
\<close>

theorem ecdsa_der_to_sig_well_formed:
  assumes "length r + length s + 4 < 256"
  shows "ecdsa_der_to_sig (der_signature r s) = Inr (0, spec_fixed32 r @ spec_fixed32 s)"
  using assms by (rule der_decode)

text \<open>
  At a 33-byte first INTEGER with a leading sign byte and a one-byte second INTEGER: the
  sign byte is dropped and the short INTEGER is left-padded.
\<close>

theorem ecdsa_der_to_sig_well_formed_witness:
  "ecdsa_der_to_sig
     ([0x30, 0x26, 0x02, 0x21,
       0x00, 0x80, 1, 2, 3, 4, 5, 6, 7, 8, 9, 10, 11, 12, 13, 14, 15, 16,
       17, 18, 19, 20, 21, 22, 23, 24, 25, 26, 27, 28, 29, 30, 31,
       0x02, 0x01, 0x05]) =
   Inr (0,
     [0x80, 1, 2, 3, 4, 5, 6, 7, 8, 9, 10, 11, 12, 13, 14, 15, 16,
      17, 18, 19, 20, 21, 22, 23, 24, 25, 26, 27, 28, 29, 30, 31] @
     replicate 31 0 @ [0x05])"
  using ecdsa_der_to_sig_well_formed
    [of "[0x00, 0x80, 1, 2, 3, 4, 5, 6, 7, 8, 9, 10, 11, 12, 13, 14, 15, 16,
          17, 18, 19, 20, 21, 22, 23, 24, 25, 26, 27, 28, 29, 30, 31]" "[0x05]"]
  by (simp add: der_signature_def spec_fixed32_def)

text \<open>
  Claim C2. The claim asks for a zeroed output on every failure. With the tags right and
  the outer length byte wrong (7 where the two INTEGERs need 6) the function returns -1
  from the length check, after the first INTEGER has been stored and before the final
  \<^verbatim>\<open>memzero\<close>: byte 31 of the output is still \<^verbatim>\<open>AA\<close>.
\<close>

theorem ecdsa_der_to_sig_length_mismatch_not_zeroed:
  "ecdsa_der_to_sig [0x30, 0x07, 0x02, 0x01, 0xAA, 0x02, 0x01, 0xBB] =
     Inr (- 1, replicate 31 0 @ [0xAA] @ replicate 32 0)"
  by (simp add: ecdsa_der_to_sig_def bnd_def rd_def store_integer_def rd_bytes_def
      memset0_at_def memcpy_at_def memzero_def SIGNATURE_SIZE_IN_ASN1_def)

text \<open>
  The sibling path: a failure reported by the final \<^verbatim>\<open>return result\<close>, which is every
  tag failure with consistent lengths, leaves the output zeroed.
\<close>

lemma ecdsa_der_to_sig_tag_failure_zeroed:
  assumes "ecdsa_der_to_sig der = Inr (res, sig)"
    and "res \<noteq> 0"
    and "unat (der ! 3) + unat (der ! (4 + unat (der ! 3) + 1)) + 4 = unat (der ! 1)"
  shows "sig = replicate 64 0"
  using assms
  by (auto simp: ecdsa_der_to_sig_def bnd_def rd_def Let_def memzero_def
      SIGNATURE_SIZE_IN_ASN1_def split: if_splits sum.splits)

section \<open>Properties of the limb integers and of conditional negation\<close>

lemma bn_is_equal_iff: "bn_is_equal a b \<longleftrightarrow> a = b"
  by (cases a, cases b) (simp add: bn_is_equal_def)

lemma bn_is_zero_iff: "bn_is_zero a \<longleftrightarrow> a = bn_zero"
  by (cases a) (simp add: bn_is_zero_def bn_zero_def)

lemma unat_negate_limb:
  fixes tmp p a :: u32
  assumes "unat p < 2 ^ 30" "unat a < 2 ^ 30" "unat tmp \<le> 2"
  shows "unat (tmp + (0x3fffffff + 2 * p - a)) = unat tmp + (2 ^ 30 - 1) + 2 * unat p - unat a"
proof -
  have a: "unat (2 * p) = 2 * unat p"
    using assms by (simp add: unat_word_ariths)
  have b: "unat (0x3fffffff + 2 * p) = 2 ^ 30 - 1 + 2 * unat p"
    using assms a by (simp add: unat_word_ariths)
  have c: "unat (0x3fffffff + 2 * p - a) = 2 ^ 30 - 1 + 2 * unat p - unat a"
    using assms b by (simp add: unat_sub word_le_nat_alt)
  show ?thesis
    using assms c by (simp add: unat_word_ariths)
qed

lemma mask30: "(0x3fffffff :: u32) = mask 30"
  by (simp add: mask_eq_exp_minus_1)

lemma unat_and30: "unat ((w :: u32) AND 0x3fffffff) = unat w mod 2 ^ 30"
  unfolding mask30 by (simp add: take_bit_eq_mask [symmetric] unsigned_take_bit_eq take_bit_eq_mod unat_mod)

lemma unat_shr30: "unat (drop_bit 30 (w :: u32)) = unat w div 2 ^ 30"
  by (simp add: unat_drop_bit_eq drop_bit_eq_div unat_div)

lemma allones_eq: "(0xffffffff :: u32) = - 1"
proof -
  have "(0xffffffff :: u32) + 1 = 0" by simp
  then show ?thesis by (simp only: eq_neg_iff_add_eq_0)
qed

lemma allones: "(x :: u32) AND 0xffffffff = x" "(y :: u32) AND NOT 0xffffffff = 0"
  by (simp_all only: allones_eq word_and_max bit.compl_one and.right_neutral and_zero_eq)

lemma limbs_val_append: "limbs_val (xs @ ys) = limbs_val xs + 2 ^ (30 * length xs) * limbs_val ys"
  by (induction xs) (simp_all add: algebra_simps power_add)

lemma limbs_val_take_Suc:
  "j < length xs \<Longrightarrow> limbs_val (take (Suc j) xs) = limbs_val (take j xs) + 2 ^ (30 * j) * unat (xs ! j)"
  by (simp add: take_Suc_conv_app_nth limbs_val_append)

lemma limb_lt: "list_all (\<lambda>w. w < 2 ^ 30) (take 8 xs) \<Longrightarrow> length xs = 9 \<Longrightarrow> j < 8 \<Longrightarrow> unat (xs ! j :: u32) < 2 ^ 30"
  by (simp add: list_all_length word_less_nat_alt)

lemma nth_of_drop_eq: "drop j xs = drop j ys \<Longrightarrow> j < length xs \<Longrightarrow> xs ! j = ys ! j"
  by (metis Cons_nth_drop_Suc drop_all linorder_not_less list.discI list.inject)

lemma drop_Suc_of_drop_eq: "drop j xs = drop j ys \<Longrightarrow> drop (Suc j) xs = drop (Suc j) ys"
  by (metis drop_Suc tl_drop)

lemma limbs_val_lt: "list_all (\<lambda>w. w < 2 ^ 30) xs \<Longrightarrow> limbs_val xs < 2 ^ (30 * length xs)"
proof (induction xs)
  case Nil then show ?case by simp
next
  case (Cons w ws)
  then have w: "unat w < 2 ^ 30" and l: "limbs_val ws < 2 ^ (30 * length ws)"
    by (simp_all add: word_less_nat_alt)
  have "unat w + 2 ^ 30 * limbs_val ws < 2 ^ 30 * (limbs_val ws + 1)"
    using w by simp
  also have "\<dots> \<le> 2 ^ 30 * 2 ^ (30 * length ws)"
    using l by (intro mult_le_mono2) simp
  finally show ?case by (simp add: power_add)
qed

lemma cn_inv_init: "length (val a) = 9 \<Longrightarrow> cn_inv a prime 0 (1, a)"
  by (simp add: cn_inv_def)

lemma cn_inv_step:
  assumes inv: "cn_inv a0 prime j s" and j: "j < 8"
    and la: "length (val a0) = 9" and lp: "length (val prime) = 9"
    and na: "list_all (\<lambda>w. w < 2 ^ 30) (take 8 (val a0))"
    and np: "list_all (\<lambda>w. w < 2 ^ 30) (take 8 (val prime))"
  shows "cn_inv a0 prime (Suc j) (cn_step 0xffffffff prime j s)"
proof -
  obtain tmp a where s: "s = (tmp, a)" by (cases s)
  from inv s have len: "length (val a) = 9"
    and dr: "drop j (val a) = drop j (val a0)"
    and t2: "unat tmp \<le> 2"
    and lt: "list_all (\<lambda>w. w < 2 ^ 30) (take j (val a))"
    and eq: "limbs_val (take j (val a)) + unat tmp * 2 ^ (30 * j) + limbs_val (take j (val a0))
               = 2 ^ (30 * j) + 2 * limbs_val (take j (val prime))"
    by (simp_all add: cn_inv_def)
  define pj where "pj = unat (val prime ! j)"
  define aj where "aj = unat (val a0 ! j)"
  define t1 where "t1 = unat tmp + (2 ^ 30 - 1) + 2 * pj - aj"
  have pj: "pj < 2 ^ 30" unfolding pj_def using np lp j by (rule limb_lt)
  have aj: "aj < 2 ^ 30" unfolding aj_def using na la j by (rule limb_lt)
  have nth: "val a ! j = val a0 ! j"
    using dr j len by (intro nth_of_drop_eq) simp_all
  define tmp1 where "tmp1 = tmp + (0x3fffffff + 2 * (val prime ! j) - (val a ! j))"
  have u1: "unat tmp1 = t1"
    unfolding tmp1_def t1_def nth pj_def aj_def
    using pj aj t2 by (intro unat_negate_limb) (simp_all add: pj_def aj_def)
  define r where "r = tmp1 AND 0x3fffffff"
  have step: "cn_step 0xffffffff prime j s = (drop_bit 30 tmp1, a\<lparr>val := (val a)[j := r]\<rparr>)"
    by (simp only: cn_step_def s Let_def fst_conv snd_conv tmp1_def [symmetric]
        allones r_def [symmetric] or.right_neutral)
  have ur: "unat r = t1 mod 2 ^ 30"
    by (simp only: r_def unat_and30 u1)
  have uc: "unat (drop_bit 30 tmp1) = t1 div 2 ^ 30"
    by (simp only: unat_shr30 u1)
  have t1_bound: "t1 < 3 * 2 ^ 30"
    unfolding t1_def using pj aj t2 by simp
  have c2: "t1 div 2 ^ 30 \<le> 2"
    using t1_bound by simp
  have r_lt: "r < 2 ^ 30"
    by (simp add: word_less_nat_alt ur)
  have tk: "take (Suc j) ((val a)[j := r]) = take j (val a) @ [r]"
    using j len by (simp add: take_Suc_conv_app_nth)
  have lj: "length (take j (val a)) = j"
    using j len by simp
  have t1_eq: "t1 + aj = unat tmp + (2 ^ 30 - 1) + 2 * pj"
    unfolding t1_def using aj by simp
  have dm: "t1 mod 2 ^ 30 + 2 ^ 30 * (t1 div 2 ^ 30) = t1"
    by simp
  define X where "X = (2::nat) ^ (30 * j)"
  define La where "La = limbs_val (take j (val a))"
  define L0 where "L0 = limbs_val (take j (val a0))"
  define Lp where "Lp = limbs_val (take j (val prime))"
  have A1: "limbs_val (take j (val a) @ [r]) = La + X * (t1 mod 2 ^ 30)"
    by (simp add: limbs_val_append lj ur X_def La_def del: length_take)
  have A2: "limbs_val (take (Suc j) (val a0)) = L0 + X * aj"
    using j la by (simp add: limbs_val_take_Suc aj_def X_def L0_def)
  have A3: "limbs_val (take (Suc j) (val prime)) = Lp + X * pj"
    using j lp by (simp add: limbs_val_take_Suc pj_def X_def Lp_def)
  have A4: "(2::nat) ^ (30 * Suc j) = X * 2 ^ 30"
    by (simp add: X_def power_add)
  have eq0: "La + unat tmp * X + L0 = X + 2 * Lp"
    using eq by (simp only: X_def La_def L0_def Lp_def)
  define m where "m = t1 mod 2 ^ 30"
  define d where "d = t1 div 2 ^ 30"
  have md: "m + 2 ^ 30 * d = t1"
    by (simp add: m_def d_def)
  have "La + X * m + d * (X * 2 ^ 30) + (L0 + X * aj) = La + L0 + X * ((m + 2 ^ 30 * d) + aj)"
    by (simp add: algebra_simps)
  also have "\<dots> = La + L0 + X * (unat tmp + (2 ^ 30 - 1) + 2 * pj)"
    by (simp only: md t1_eq)
  also have "\<dots> = (La + unat tmp * X + L0) + X * ((2 ^ 30 - 1) + 2 * pj)"
    by (simp add: algebra_simps)
  also have "\<dots> = X + 2 * Lp + X * ((2 ^ 30 - 1) + 2 * pj)"
    by (simp only: eq0)
  also have "\<dots> = X * 2 ^ 30 + 2 * (Lp + X * pj)"
  proof -
    have "X + X * (2 ^ 30 - 1) = X * 2 ^ 30"
      by simp
    then show ?thesis
      by (simp only: distrib_left)
  qed
  finally have eq': "limbs_val (take j (val a) @ [r]) + t1 div 2 ^ 30 * 2 ^ (30 * Suc j)
          + limbs_val (take (Suc j) (val a0)) = 2 ^ (30 * Suc j) + 2 * limbs_val (take (Suc j) (val prime))"
    by (simp only: A1 A2 A3 A4 m_def d_def)
  have "drop (Suc j) ((val a)[j := r]) = drop (Suc j) (val a)"
    by simp
  also have "\<dots> = drop (Suc j) (val a0)"
    using dr by (rule drop_Suc_of_drop_eq)
  finally have dr': "drop (Suc j) ((val a)[j := r]) = drop (Suc j) (val a0)" .
  have lt': "list_all (\<lambda>w. w < 2 ^ 30) (take j (val a) @ [r])"
    using lt r_lt by simp
  have len': "length ((val a)[j := r]) = 9"
    using len by simp
  have vu: "val (a\<lparr>val := (val a)[j := r]\<rparr>) = (val a)[j := r]"
    by simp
  show ?thesis
    unfolding step cn_inv_def fst_conv snd_conv uc vu tk
    using len' dr' c2 lt' eq' by (simp only: simp_thms)
qed

lemma cn_loop_inv:
  assumes "cond = 0xffffffff" and "cn_inv a0 prime j s" and "j \<le> 8"
    and "length (val a0) = 9" and "length (val prime) = 9"
    and "list_all (\<lambda>w. w < 2 ^ 30) (take 8 (val a0))"
    and "list_all (\<lambda>w. w < 2 ^ 30) (take 8 (val prime))"
  shows "cn_inv a0 prime 8 (cn_loop cond prime j s)"
  using assms
proof (induction cond prime j s rule: cn_loop.induct)
  case (1 cond prime j s)
  show ?case
  proof (cases "j < 8")
    case True
    have "cn_inv a0 prime (j + 1) (cn_step cond prime j s)"
      using cn_inv_step [OF "1.prems"(2) True "1.prems"(4-7)] "1.prems"(1) by simp
    then have "cn_inv a0 prime 8 (cn_loop cond prime (j + 1) (cn_step cond prime j s))"
      using "1.IH" [OF True] "1.prems" True by simp
    then show ?thesis
      using True by (subst cn_loop.simps) simp
  next
    case False
    with "1.prems" have "j = 8" by simp
    then show ?thesis
      using "1.prems"(2) by (subst cn_loop.simps) simp
  qed
qed

lemma list9_split: "length xs = 9 \<Longrightarrow> xs = take 8 xs @ [xs ! 8]"
  by (metis One_nat_def Suc_eq_plus1 lessI numeral_plus_one semiring_norm(5) semiring_norm(8)
      take_Suc_conv_app_nth take_all order_refl)

lemma limbs_val_9:
  "length xs = 9 \<Longrightarrow> limbs_val xs = limbs_val (take 8 xs) + 2 ^ 240 * unat (xs ! 8)"
  using limbs_val_take_Suc [of 8 xs] by simp

lemma cn_negate:
  assumes la: "length (val a) = 9" and lp: "length (val prime) = 9"
    and na: "list_all (\<lambda>w. w < 2 ^ 30) (take 8 (val a))"
    and np: "list_all (\<lambda>w. w < 2 ^ 30) (take 8 (val prime))"
    and a8: "val a ! 8 < 0x20000" and p8: "val prime ! 8 < 0x10000"
    and le: "bn_val a \<le> 2 * bn_val prime"
  shows "\<exists>a'. conditional_negate 0xffffffff a prime = Inr a' \<and> bn_norm a' \<and> val a' ! 8 < 0x20000 \<and>
              bn_val a' + bn_val a = 2 * bn_val prime"
proof -
  define s where "s = cn_loop 0xffffffff prime 0 (1, a)"
  obtain tmp a1 where s: "s = (tmp, a1)" by (cases s)
  have inv: "cn_inv a prime 8 s"
    unfolding s_def using cn_inv_init [OF la] la lp na np by (intro cn_loop_inv) simp_all
  define X where "X = (2::nat) ^ 240"
  define L1 where "L1 = limbs_val (take 8 (val a1))"
  define L0 where "L0 = limbs_val (take 8 (val a))"
  define Lp where "Lp = limbs_val (take 8 (val prime))"
  define t where "t = unat tmp"
  define pe where "pe = unat (val prime ! 8)"
  define ae where "ae = unat (val a ! 8)"
  from inv s have len: "length (val a1) = 9"
    and dr: "drop 8 (val a1) = drop 8 (val a)"
    and t2: "t \<le> 2"
    and lt: "list_all (\<lambda>w. w < 2 ^ 30) (take 8 (val a1))"
    and eq: "L1 + t * X + L0 = X + 2 * Lp"
    by (simp_all add: cn_inv_def X_def L1_def L0_def Lp_def t_def)
  have nth: "val a1 ! 8 = val a ! 8"
    using dr len by (intro nth_of_drop_eq) simp_all
  have ae: "ae < 2 ^ 17" using a8 by (simp add: ae_def word_less_nat_alt)
  have pe: "pe < 2 ^ 16" using p8 by (simp add: pe_def word_less_nat_alt)
  have va: "bn_val a = L0 + X * ae"
    using limbs_val_9 [OF la] by (simp add: bn_val_def L0_def X_def ae_def)
  have vp: "bn_val prime = Lp + X * pe"
    using limbs_val_9 [OF lp] by (simp add: bn_val_def Lp_def X_def pe_def)
  have L1_lt: "L1 < X"
    using limbs_val_lt [OF lt] len by (simp add: L1_def X_def)
  have ge: "ae + 1 \<le> t + 2 * pe"
  proof (rule ccontr)
    assume "\<not> ae + 1 \<le> t + 2 * pe"
    then have "t + 2 * pe \<le> ae" by simp
    then have "X * (t + 2 * pe) \<le> X * ae" by (rule mult_le_mono2)
    then have "X * t + 2 * (X * pe) \<le> X * ae" by (simp add: algebra_simps)
    moreover have "L0 + X * ae \<le> 2 * Lp + 2 * (X * pe)"
      using le by (simp add: va vp algebra_simps)
    moreover have "L1 + X * t + L0 = X + 2 * Lp"
      using eq by (simp add: algebra_simps)
    ultimately show False using L1_lt by linarith
  qed
  define m where "m = t + 2 * pe - ae - 1"
  have m: "m + ae + 1 = t + 2 * pe" using ge by (simp add: m_def)
  have m_lt: "m < 2 ^ 17" using m t2 pe by simp
  define tmp1 where "tmp1 = tmp + (0x3fffffff + 2 * (val prime ! 8) - (val a1 ! 8))"
  have "unat tmp1 = t + (2 ^ 30 - 1) + 2 * pe - ae"
    unfolding tmp1_def nth t_def pe_def ae_def
    using pe ae t2 by (intro unat_negate_limb) (simp_all add: pe_def ae_def t_def)
  also have "\<dots> = 2 ^ 30 + m"
    using m by simp
  finally have u1: "unat tmp1 = 2 ^ 30 + m" .
  define r where "r = tmp1 AND 0x3fffffff"
  have ur: "unat r = m"
    using m_lt by (simp add: r_def unat_and30 u1)
  define a2 where "a2 = a1\<lparr>val := (val a1)[8 := r]\<rparr>"
  have va2: "val a2 = take 8 (val a1) @ [r]"
    using list9_split [of "(val a1)[8 := r]"] len by (simp add: a2_def)
  have r_lt: "val a2 ! 8 < 0x20000"
    using m_lt len by (simp add: va2 nth_append word_less_nat_alt ur)
  have res: "conditional_negate 0xffffffff a prime = Inr a2"
    using a8 r_lt
    by (simp only: conditional_negate_def s_def [symmetric] s Let_def fst_conv snd_conv
        tmp1_def [symmetric] allones r_def [symmetric] or.right_neutral a2_def [symmetric])
       simp
  have norm: "bn_norm a2"
    using lt len by (simp add: bn_norm_def va2)
  have v2: "bn_val a2 = L1 + X * m"
    using len by (simp add: bn_val_def va2 limbs_val_append L1_def X_def ur)
  have "X * (m + ae + 1) = X * (t + 2 * pe)"
    by (simp only: m)
  then have f1: "X * m + X * ae + X = X * t + 2 * (X * pe)"
    by (simp add: algebra_simps)
  have f2: "L1 + X * t + L0 = X + 2 * Lp"
    using eq by (simp add: mult.commute)
  have f3: "2 * bn_val prime = 2 * Lp + 2 * (X * pe)"
    by (simp add: vp)
  have "bn_val a2 + bn_val a = 2 * bn_val prime"
    unfolding v2 va f3 using f1 f2 by linarith
  with res norm r_lt show ?thesis by blast
qed

lemma replicate_9: "replicate 9 x = [x, x, x, x, x, x, x, x, x]"
  by (simp add: eval_nat_numeral)

lemma cn_step_zero: "snd (cn_step 0 prime j s) = snd s"
  by (simp add: cn_step_def Let_def)

lemma cn_loop_zero: "snd (cn_loop 0 prime j s) = snd s"
proof (induction "0::u32" prime j s rule: cn_loop.induct)
  case (1 prime j s)
  then show ?case
    by (subst cn_loop.simps) (simp add: cn_step_zero)
qed

lemma cn_keep: "val a ! 8 < 0x20000 \<Longrightarrow> conditional_negate 0 a prime = Inr a"
  by (simp add: conditional_negate_def Let_def cn_loop_zero)

text \<open>
  Claim C4, as the code has it. With \<^verbatim>\<open>cond = 0\<close> the array comes back bit-identical. With
  \<^verbatim>\<open>cond = 0xffffffff\<close>, for limb arrays in their ranges (lower limbs below \<open>2 ^ 30\<close>, top
  limb of \<open>a\<close> below \<open>2 ^ 17\<close>, top limb of the modulus below \<open>2 ^ 16\<close>) and
  \<open>a \<le> 2 * modulus\<close>, both assertions pass and the new array stands for
  \<open>2 * modulus - a\<close>: congruent to \<open>- a\<close> modulo the modulus, its top limb again below
  \<open>2 ^ 17\<close>, and not reduced into \<open>[0, modulus)\<close>.
\<close>

theorem conditional_negate_value:
  "(val a ! 8 < 0x20000 \<longrightarrow> conditional_negate 0 a prime = Inr a) \<and>
   (bn_norm a \<and> bn_norm prime \<and> val a ! 8 < 0x20000 \<and> val prime ! 8 < 0x10000 \<and>
    bn_val a \<le> 2 * bn_val prime \<longrightarrow>
    (\<exists>a'. conditional_negate 0xffffffff a prime = Inr a' \<and> bn_norm a' \<and> val a' ! 8 < 0x20000 \<and>
          bn_val a' = 2 * bn_val prime - bn_val a))"
proof (intro conjI impI)
  assume "val a ! 8 < 0x20000"
  then show "conditional_negate 0 a prime = Inr a"
    by (rule cn_keep)
next
  assume h: "bn_norm a \<and> bn_norm prime \<and> val a ! 8 < 0x20000 \<and> val prime ! 8 < 0x10000 \<and>
             bn_val a \<le> 2 * bn_val prime"
  then obtain a' where "conditional_negate 0xffffffff a prime = Inr a'" "bn_norm a'"
    "val a' ! 8 < 0x20000" "bn_val a' + bn_val a = 2 * bn_val prime"
    using cn_negate [of a prime] by (auto simp: bn_norm_def)
  then show "\<exists>a'. conditional_negate 0xffffffff a prime = Inr a' \<and> bn_norm a' \<and>
                  val a' ! 8 < 0x20000 \<and> bn_val a' = 2 * bn_val prime - bn_val a"
    by (intro exI [of _ a']) simp
qed

text \<open>At \<open>a = 1\<close> and the prime of secp256k1: the result stands for \<open>2 * p - 1\<close>.\<close>

theorem conditional_negate_value_witness:
  "conditional_negate 0 (bn_lit 1) secp256k1_prime = Inr (bn_lit 1) \<and>
   (\<exists>a'. conditional_negate 0xffffffff (bn_lit 1) secp256k1_prime = Inr a' \<and> bn_norm a' \<and>
         val a' ! 8 < 0x20000 \<and> bn_val a' = 2 * (2 ^ 256 - 2 ^ 32 - 977) - 1)"
  using conditional_negate_value [of "bn_lit 1" secp256k1_prime]
  by (simp add: bn_lit_def secp256k1_prime_def bn_norm_def bn_val_def)

text \<open>
  The claim as stated fails there: it asks for \<open>(2 * p - 1) mod p\<close>, a number below \<open>p\<close>;
  the array returned stands for \<open>2 * p - 1\<close>, which is neither.
\<close>

theorem conditional_negate_not_reduced:
  "conditional_negate 0xffffffff (bn_lit 1) secp256k1_prime =
     Inr \<lparr>val = [0x3ffff85d, 0x3ffffff7, 0x3fffffff, 0x3fffffff, 0x3fffffff,
                 0x3fffffff, 0x3fffffff, 0x3fffffff, 0x1ffff]\<rparr> \<and>
   bn_val \<lparr>val = [0x3ffff85d, 0x3ffffff7, 0x3fffffff, 0x3fffffff, 0x3fffffff,
                  0x3fffffff, 0x3fffffff, 0x3fffffff, 0x1ffff]\<rparr>
     \<noteq> (2 * bn_val secp256k1_prime - bn_val (bn_lit 1)) mod bn_val secp256k1_prime \<and>
   \<not> bn_val \<lparr>val = [0x3ffff85d, 0x3ffffff7, 0x3fffffff, 0x3fffffff, 0x3fffffff,
                    0x3fffffff, 0x3fffffff, 0x3fffffff, 0x1ffff]\<rparr>
       < bn_val secp256k1_prime"
  by (simp add: conditional_negate_def cn_loop.simps cn_step_def bn_lit_def
      secp256k1_prime_def Let_def bn_val_def)

section \<open>Properties of the point predicates\<close>

text \<open>
  Claim C10, as the code has it: \<^verbatim>\<open>point_is_negative_of(p, q)\<close> is true exactly when the
  x-coordinates are equal, the y-coordinates differ and the y-coordinate of \<open>p\<close> is not
  zero. Neither point is tested for being the point at infinity (the source's comment
  expects the caller to exclude it).
\<close>

theorem point_is_negative_of_iff:
  "point_is_negative_of p q \<longleftrightarrow>
     pt_x p = pt_x q \<and> pt_y p \<noteq> pt_y q \<and> pt_y p \<noteq> bn_zero"
  by (auto simp: point_is_negative_of_def bn_is_equal_iff bn_is_zero_iff)

text \<open>
  The claim as stated fails in both directions. For \<open>p = (3, 0)\<close> and \<open>q = (3, 5)\<close> the
  x-coordinates agree, the y-coordinates differ and neither point is the point at
  infinity, and the function returns false. For \<open>p = (0, 5)\<close> and \<open>q\<close> the point at
  infinity the function returns true.
\<close>

theorem point_is_negative_of_counterexample:
  "\<not> point_is_negative_of \<lparr>pt_x = bn_lit 3, pt_y = bn_zero\<rparr> \<lparr>pt_x = bn_lit 3, pt_y = bn_lit 5\<rparr> \<and>
   bn_is_equal (bn_lit 3) (bn_lit 3) \<and> \<not> bn_is_equal bn_zero (bn_lit 5) \<and>
   \<not> point_is_infinity \<lparr>pt_x = bn_lit 3, pt_y = bn_zero\<rparr> \<and>
   \<not> point_is_infinity \<lparr>pt_x = bn_lit 3, pt_y = bn_lit 5\<rparr> \<and>
   point_is_negative_of \<lparr>pt_x = bn_zero, pt_y = bn_lit 5\<rparr> point_set_infinity \<and>
   point_is_infinity point_set_infinity"
  by (simp add: point_is_negative_of_def point_is_infinity_def point_set_infinity_def
      bn_is_equal_def bn_is_zero_def bn_zero_def bn_lit_def replicate_9)

section \<open>Properties of scalar multiplication at the scalar zero\<close>

lemma bn_zero_nth: "j < 9 \<Longrightarrow> val bn_zero ! j = 0"
  by (simp add: bn_zero_def)

lemma recode_step_zero_nz:
  "j < 9 \<Longrightarrow> fst (snd (recode_step bn_zero order e j s)) = fst (snd s)"
  by (simp add: recode_step_def Let_def bn_zero_nth)

lemma recode_loop_zero_nz:
  "fst (snd (recode_loop bn_zero order e j s)) = fst (snd s)"
proof (induction bn_zero order e j s rule: recode_loop.induct)
  case (1 order e j s)
  show ?case
  proof (cases "j < 8")
    case True
    then show ?thesis
      using "1" by (subst recode_loop.simps) (simp add: recode_step_zero_nz)
  next
    case False
    then show ?thesis by (subst recode_loop.simps) simp
  qed
qed

lemma recode_step_nth0:
  "0 < j \<Longrightarrow> val (snd (snd (recode_step k order e j s))) ! 0 = val (snd (snd s)) ! 0"
  by (simp add: recode_step_def Let_def)

lemma recode_loop_nth0:
  "0 < j \<Longrightarrow> val (snd (snd (recode_loop k order e j s))) ! 0 = val (snd (snd s)) ! 0"
proof (induction k order e j s rule: recode_loop.induct)
  case (1 k order e j s)
  show ?case
  proof (cases "j < 8")
    case True
    then show ?thesis
      using "1" by (subst recode_loop.simps) (simp add: recode_step_nth0)
  next
    case False
    then show ?thesis by (subst recode_loop.simps) simp
  qed
qed

lemma recode_zero:
  assumes "0 < length (val a0)"
  shows "fst (recode bn_zero order a0) = 0"
    and "even (val (snd (recode bn_zero order a0)) ! 0) = even (val order ! 0)"
proof -
  have e: "((val bn_zero ! 0) AND 1) - 1 = (- 1 :: u32)"
    by (simp add: bn_zero_nth)
  define s where "s = recode_loop bn_zero order (- 1) 0 (1, 0, a0)"
  have nz: "fst (snd s) = 0"
    by (simp add: s_def recode_loop_zero_nz)
  have "s = recode_loop bn_zero order (- 1) 1 (recode_step bn_zero order (- 1) 0 (1, 0, a0))"
    unfolding s_def by (subst recode_loop.simps) simp
  then have "val (snd (snd s)) ! 0 =
             val (snd (snd (recode_step bn_zero order (- 1) 0 (1, 0, a0)))) ! 0"
    by (simp add: recode_loop_nth0)
  also have "\<dots> = (1 + (0x3fffffff + 0 - (val order ! 0))) AND 0x3fffffff"
    using assms by (simp add: recode_step_def Let_def bn_zero_nth)
  finally have a0: "val (snd (snd s)) ! 0 = (1 + (0x3fffffff + 0 - (val order ! 0))) AND 0x3fffffff" .
  have r: "recode bn_zero order a0 =
           (fst (snd s) OR (val bn_zero ! 8),
            (snd (snd s))\<lparr>val := (val (snd (snd s)))
               [8 := fst s + 0xffff + (val bn_zero ! 8) - ((val order ! 8) AND - 1)]\<rparr>)"
    unfolding recode_def Let_def e s_def ..
  show "fst (recode bn_zero order a0) = 0"
    by (simp add: r nz bn_zero_nth)
  have "val (snd (recode bn_zero order a0)) ! 0 = val (snd (snd s)) ! 0"
    by (simp add: r)
  then show "even (val (snd (recode bn_zero order a0)) ! 0) = even (val order ! 0)"
    by (simp add: a0 even_and_iff)
qed

lemma bn_val_zero: "bn_val bn_zero = 0"
  by (simp add: bn_val_def bn_zero_def replicate_9)

lemma point_multiply_zero:
  assumes "0 < length (val (pm_a st))" and "0 < bn_val (curve_order curve)"
    and "odd (val (curve_order curve) ! 0)"
  shows "point_multiply ops rnd curve bn_zero p st =
         Some (Inr (point_set_infinity, st\<lparr>pm_a := snd (recode bn_zero (curve_order curve) (pm_a st))\<rparr>))"
  using assms recode_zero [of "pm_a st" "curve_order curve"]
  by (simp add: point_multiply_def Let_def bn_is_less_def bn_val_zero and_one_eq even_iff_mod_2_eq_zero)

lemma scalar_multiply_cp_zero:
  assumes "0 < length (val (sm_a st))" and "0 < bn_val (curve_order curve)"
    and "odd (val (curve_order curve) ! 0)"
  shows "scalar_multiply_cp ops rnd curve bn_zero st =
         Some (Inr (point_set_infinity, st\<lparr>sm_a := snd (recode bn_zero (curve_order curve) (sm_a st))\<rparr>))"
  using assms recode_zero [of "sm_a st" "curve_order curve"]
  by (simp add: scalar_multiply_cp_def Let_def bn_is_less_def bn_val_zero and_one_eq even_iff_mod_2_eq_zero)

lemma point_is_infinity_iff: "point_is_infinity p \<longleftrightarrow> p = point_set_infinity"
  by (cases p) (simp add: point_is_infinity_def point_set_infinity_def bn_is_zero_iff)

lemma point_add_infinity_right: "point_add ops curve p point_set_infinity = p"
  by (simp add: point_add_def point_is_infinity_iff point_copy_def)

lemma point_add_infinity_left: "point_add ops curve point_set_infinity p = p"
  by (simp add: point_add_def point_is_infinity_iff)

lemma odd_order_positive:
  assumes "bn_norm a" and "odd (val a ! 0)"
  shows "0 < bn_val a"
proof -
  from assms(1) obtain w ws where "val a = w # ws"
    by (cases "val a") (simp_all add: bn_norm_def)
  with assms(2) show ?thesis
    by (cases "w = 0") (auto simp: bn_val_def unat_gt_0)
qed

text \<open>
  Claim C9. With the scalar zero \<^verbatim>\<open>point_multiply\<close> takes its early return and the result
  is the point at infinity, for every point \<open>p\<close>; the two assertions before that return
  pass on a curve whose order is odd (the static \<^verbatim>\<open>a\<close> is an array of nine limbs). And
  \<^verbatim>\<open>point_add\<close> returns the other operand when one operand is the point at infinity.
\<close>

theorem point_multiply_zero_point_add_infinity:
  "(length (val (pm_a st)) = 9 \<and> bn_norm (curve_order curve) \<and> odd (val (curve_order curve) ! 0) \<longrightarrow>
      (\<exists>st'. point_multiply ops rnd curve bn_zero p st = Some (Inr (point_set_infinity, st')))) \<and>
   point_add ops curve p point_set_infinity = p \<and>
   point_add ops curve point_set_infinity p = p"
proof (intro conjI impI)
  assume h: "length (val (pm_a st)) = 9 \<and> bn_norm (curve_order curve) \<and>
             odd (val (curve_order curve) ! 0)"
  then have "0 < bn_val (curve_order curve)"
    by (simp add: odd_order_positive)
  with h show "\<exists>st'. point_multiply ops rnd curve bn_zero p st = Some (Inr (point_set_infinity, st'))"
    using point_multiply_zero [of st curve ops rnd p] by simp
qed (rule point_add_infinity_right, rule point_add_infinity_left)

text \<open>On secp256k1, for its base point, from the initial state.\<close>

theorem point_multiply_zero_point_add_infinity_witness:
  "(\<exists>st'. point_multiply ref_ops (\<lambda>i. 0) secp256k1 bn_zero secp256k1_G world0 =
      Some (Inr (point_set_infinity, st'))) \<and>
   point_add ref_ops secp256k1 secp256k1_G point_set_infinity = secp256k1_G \<and>
   point_add ref_ops secp256k1 point_set_infinity secp256k1_G = secp256k1_G"
  using point_multiply_zero_point_add_infinity
    [of world0 secp256k1 ref_ops "\<lambda>i. 0" secp256k1_G]
  by (simp add: world0_def secp256k1_def secp256k1_order_def bn_norm_def bn_zero_def)

lemma point_multiply_normal_exit_wipes:
  assumes "point_multiply ops rnd curve k p st = Some (Inr (res, st'))"
    and "fst (recode k (curve_order curve) (pm_a st)) \<noteq> 0"
  shows "pm_a st' = bn_zero \<and> pm_jres st' = jres_zero"
  using assms
  by (auto simp: point_multiply_def Let_def bnd_def split: if_splits option.splits sum.splits prod.splits)

lemma scalar_multiply_normal_exit_wipes:
  assumes "scalar_multiply_cp ops rnd curve k st = Some (Inr (res, st'))"
    and "fst (recode k (curve_order curve) (sm_a st)) \<noteq> 0"
  shows "sm_a st' = bn_zero \<and> sm_jres st' = jres_zero"
  using assms
  by (auto simp: scalar_multiply_cp_def Let_def bnd_def split: if_splits option.splits sum.splits prod.splits)

lemma recode_zero_secp256k1: "recode bn_zero secp256k1_order bn_zero =
   (0, \<lparr>val = [801750719, 11961804, 192281668, 340313684, 325, 0, 0, 0, 0]\<rparr>)"
  by (simp add: recode_def recode_loop.simps recode_step_def Let_def bn_zero_def secp256k1_order_def replicate_9)

text \<open>
  Claim C5. The claim asks for wiped scratch storage on every exit path. On the exit taken
  for the scalar zero the static \<^verbatim>\<open>a\<close> has been written and is not wiped: on secp256k1,
  from the initial state, \<^verbatim>\<open>point_multiply\<close> and both variants of \<^verbatim>\<open>scalar_multiply\<close> return
  with \<^verbatim>\<open>a\<close> holding \<open>2 ^ 256\<close> minus the order. The exit at the end of the functions
  wipes both statics (the two lemmas above).
\<close>

theorem scalar_zero_leaves_recoded_scalar:
  "point_multiply ref_ops (\<lambda>i. 0) secp256k1 bn_zero secp256k1_G world0 =
     Some (Inr (point_set_infinity,
       world0\<lparr>pm_a := \<lparr>val = [0x2fc9bebf, 0xb685cc, 0xb75fc44, 0x1448c654, 0x145, 0, 0, 0, 0]\<rparr>\<rparr>)) \<and>
   scalar_multiply True ref_ops (\<lambda>i. 0) secp256k1 bn_zero world0 =
     Some (Inr (point_set_infinity,
       world0\<lparr>sm_a := \<lparr>val = [0x2fc9bebf, 0xb685cc, 0xb75fc44, 0x1448c654, 0x145, 0, 0, 0, 0]\<rparr>\<rparr>))"
proof -
  have o: "curve_order secp256k1 = secp256k1_order"
    by (simp add: secp256k1_def)
  have w: "pm_a world0 = bn_zero" "sm_a world0 = bn_zero"
    by (simp_all add: world0_def)
  have l: "0 < length (val bn_zero)"
    by (simp add: bn_zero_def)
  have v: "0 < bn_val secp256k1_order"
    by (simp add: bn_val_def secp256k1_order_def)
  have d: "odd (val secp256k1_order ! 0)"
    by (simp add: secp256k1_order_def)
  show ?thesis
    using point_multiply_zero [of world0 secp256k1 ref_ops "\<lambda>i. 0" secp256k1_G]
      scalar_multiply_cp_zero [of world0 secp256k1 ref_ops "\<lambda>i. 0"] l v d
    by (simp add: o w recode_zero_secp256k1 scalar_multiply_def)
qed

section \<open>Properties of the public key recovery\<close>

lemma recover_fail:
  assumes "rd_bytes sig 0 32 = Inr rb" and "rd_bytes sig 32 32 = Inr sb"
  shows
  "(\<not> bn_is_less (bn_read_be ops rb) (curve_order curve) \<or> bn_is_zero (bn_read_be ops rb) \<longrightarrow>
      ecdsa_recover_pub_from_sig u ops rnd curve pub_key sig digest recid st = Some (Inr (1, pub_key, st))) \<and>
   (\<not> bn_is_less (bn_read_be ops sb) (curve_order curve) \<or> bn_is_zero (bn_read_be ops sb) \<longrightarrow>
      ecdsa_recover_pub_from_sig u ops rnd curve pub_key sig digest recid st = Some (Inr (1, pub_key, st))) \<and>
   (recid AND 2 \<noteq> 0 \<and> \<not> bn_is_less (bn_add ops (bn_read_be ops rb) (curve_order curve)) (curve_prime curve) \<longrightarrow>
      ecdsa_recover_pub_from_sig u ops rnd curve pub_key sig digest recid st = Some (Inr (1, pub_key, st))) \<and>
   (ecdsa_validate_pubkey ops curve
      \<lparr>pt_x = (if recid AND 2 \<noteq> 0 then bn_add ops (bn_read_be ops rb) (curve_order curve) else bn_read_be ops rb),
       pt_y = uncompress_coords ops curve (word_of_int (recid AND 1))
               (if recid AND 2 \<noteq> 0 then bn_add ops (bn_read_be ops rb) (curve_order curve) else bn_read_be ops rb)\<rparr> = 0 \<longrightarrow>
      ecdsa_recover_pub_from_sig u ops rnd curve pub_key sig digest recid st = Some (Inr (1, pub_key, st)))"
  using assms
  by (simp add: ecdsa_recover_pub_from_sig_def obnd_def Let_def)

lemma rd_bytes_zero_sig: "rd_bytes (replicate 64 0) 0 32 = Inr (replicate 32 0)"
  by (simp add: rd_bytes_def)

lemma be_val_zeros: "be_val acc (replicate n 0) = acc * 256 ^ n"
  by (induction n arbitrary: acc) simp_all

lemma read_be_zero: "bn_read_be ref_ops (replicate 32 0) = bn_zero"
  by (simp add: ref_ops_def be_val_zeros bn_of_nat_def bn_zero_def replicate_9)

lemma rd_bytes_sig_x_overflow: "rd_bytes sig_x_overflow 0 32 = Inr (0x80 # replicate 31 0)" "rd_bytes sig_x_overflow 32 32 = Inr (replicate 31 0 @ [0x01])"
  by (simp_all add: rd_bytes_def sig_x_overflow_def)

lemma be_val_append: "be_val acc (xs @ ys) = be_val (be_val acc xs) ys"
  by (induction xs arbitrary: acc) simp_all

lemma read_be_2p255_a: "bn_read_be ref_ops (0x80 # replicate 31 0) = bn_of_nat (2 ^ 255)"
  by (simp add: ref_ops_def be_val_zeros)

lemma read_be_2p255_b: "bn_of_nat (2 ^ 255) = \<lparr>val = [0, 0, 0, 0, 0, 0, 0, 0, 0x8000]\<rparr>"
  by (simp add: bn_of_nat_def)

lemma read_be_2p255: "bn_read_be ref_ops (0x80 # replicate 31 0) = \<lparr>val = [0, 0, 0, 0, 0, 0, 0, 0, 0x8000]\<rparr>"
  by (simp only: read_be_2p255_a read_be_2p255_b)

lemma read_be_one: "bn_read_be ref_ops (replicate 31 0 @ [0x01]) = bn_lit 1"
  by (simp add: ref_ops_def be_val_zeros be_val_append bn_of_nat_def bn_lit_def)

lemma add_order_2p255: "bn_add ref_ops \<lparr>val = [0, 0, 0, 0, 0, 0, 0, 0, 0x8000]\<rparr> secp256k1_order = 
  \<lparr>val = [0x10364141, 0x3f497a33, 0x348a03bb, 0x2bb739ab, 0x3ffffeba, 0x3fffffff, 0x3fffffff, 0x3fffffff, 0x17fff]\<rparr>"
  by (simp add: ref_ops_def bn_val_def secp256k1_order_def bn_of_nat_def)

lemma bn_val_lit: "bn_val (bn_lit w) = unat w"
  by (simp add: bn_val_def bn_lit_def)

lemma bn_of_nat_small: "n < 2 ^ 30 \<Longrightarrow> bn_of_nat n = bn_lit (of_nat n)"
  by (simp add: bn_of_nat_def bn_lit_def)

lemma toy_uncompress: "uncompress_coords ref_ops toy_curve 0 (bn_lit 1) = bn_lit 6"
  by (simp add: uncompress_coords_def ref_ops_def toy_curve_def Let_def bn_val_lit bn_of_nat_small)
     (simp add: bn_lit_def)

lemma toy_validate:
  "ecdsa_validate_pubkey ref_ops toy_curve \<lparr>pt_x = bn_lit 1, pt_y = bn_lit 6\<rparr> = 0"
  by (simp add: ecdsa_validate_pubkey_def ref_ops_def toy_curve_def Let_def bn_val_lit
      bn_of_nat_small point_is_infinity_def bn_is_zero_def bn_is_less_def bn_is_equal_def)
     (simp add: bn_lit_def)

lemma rd_bytes_sig_r1_s1: "rd_bytes sig_r1_s1 0 32 = Inr (replicate 31 0 @ [0x01])"
   "rd_bytes sig_r1_s1 32 32 = Inr (replicate 31 0 @ [0x01])"
  by (simp_all add: rd_bytes_def sig_r1_s1_def)

text \<open>
  Claim C1, as the code has it. Each validation step that fails returns the same value 1,
  with \<^verbatim>\<open>pub_key\<close> and the state untouched: \<open>r\<close> out of range or zero, \<open>s\<close> out of
  range or zero, the x-coordinate offset by the order not below the prime, and the
  recovered point rejected by \<^verbatim>\<open>ecdsa_validate_pubkey\<close>. (\<open>u\<close> is \<^verbatim>\<open>USE_PRECOMPUTED_CP\<close>.)
\<close>

theorem ecdsa_recover_failures_return_one:
  assumes "rd_bytes sig 0 32 = Inr rb" and "rd_bytes sig 32 32 = Inr sb"
  shows
  "(\<not> bn_is_less (bn_read_be ops rb) (curve_order curve) \<or> bn_is_zero (bn_read_be ops rb) \<longrightarrow>
      ecdsa_recover_pub_from_sig u ops rnd curve pub_key sig digest recid st = Some (Inr (1, pub_key, st))) \<and>
   (\<not> bn_is_less (bn_read_be ops sb) (curve_order curve) \<or> bn_is_zero (bn_read_be ops sb) \<longrightarrow>
      ecdsa_recover_pub_from_sig u ops rnd curve pub_key sig digest recid st = Some (Inr (1, pub_key, st))) \<and>
   (recid AND 2 \<noteq> 0 \<and> \<not> bn_is_less (bn_add ops (bn_read_be ops rb) (curve_order curve)) (curve_prime curve) \<longrightarrow>
      ecdsa_recover_pub_from_sig u ops rnd curve pub_key sig digest recid st = Some (Inr (1, pub_key, st))) \<and>
   (ecdsa_validate_pubkey ops curve
      \<lparr>pt_x = (if recid AND 2 \<noteq> 0 then bn_add ops (bn_read_be ops rb) (curve_order curve) else bn_read_be ops rb),
       pt_y = uncompress_coords ops curve (word_of_int (recid AND 1))
               (if recid AND 2 \<noteq> 0 then bn_add ops (bn_read_be ops rb) (curve_order curve) else bn_read_be ops rb)\<rparr> = 0 \<longrightarrow>
      ecdsa_recover_pub_from_sig u ops rnd curve pub_key sig digest recid st = Some (Inr (1, pub_key, st)))"
  using assms by (rule recover_fail)

text \<open>
  On secp256k1: the all-zero signature (\<open>r\<close> and \<open>s\<close> zero), and \<open>r = 2 ^ 255\<close> with bit 1
  of the recovery id set (x-coordinate out of range). On the toy curve: \<open>r = s = 1\<close> (no
  point with that x-coordinate).
\<close>

theorem ecdsa_recover_failures_return_one_witness:
  "ecdsa_recover_pub_from_sig True ref_ops (\<lambda>i. 0) secp256k1 (replicate 65 0) (replicate 64 0)
     (replicate 32 0) 0 world0 = Some (Inr (1, replicate 65 0, world0)) \<and>
   ecdsa_recover_pub_from_sig True ref_ops (\<lambda>i. 0) secp256k1 (replicate 65 0) sig_x_overflow
     (replicate 32 0) 2 world0 = Some (Inr (1, replicate 65 0, world0)) \<and>
   ecdsa_recover_pub_from_sig True ref_ops (\<lambda>i. 0) toy_curve (replicate 65 0) sig_r1_s1
     (replicate 32 0) 0 world0 = Some (Inr (1, replicate 65 0, world0))"
proof -
  have z: "bn_is_zero bn_zero" by (simp add: bn_is_zero_def bn_zero_def)
  have o: "curve_order secp256k1 = secp256k1_order" "curve_prime secp256k1 = secp256k1_prime"
    by (simp_all add: secp256k1_def)
  have x: "\<not> bn_is_less \<lparr>val = [0x10364141, 0x3f497a33, 0x348a03bb, 0x2bb739ab, 0x3ffffeba,
             0x3fffffff, 0x3fffffff, 0x3fffffff, 0x17fff]\<rparr> secp256k1_prime"
    by (simp add: bn_is_less_def bn_val_def secp256k1_prime_def)
  have two: "(2::int) AND 2 \<noteq> 0" "(0::int) AND 2 = 0" "(0::int) AND 1 = 0" by simp_all
  have A: "ecdsa_recover_pub_from_sig True ref_ops (\<lambda>i. 0) secp256k1 (replicate 65 0) (replicate 64 0)
     (replicate 32 0) 0 world0 = Some (Inr (1, replicate 65 0, world0))"
    using ecdsa_recover_failures_return_one [where sig = "replicate 64 0" and rb = "replicate 32 0" and sb = "replicate 32 0"
        and ops = ref_ops and curve = secp256k1 and recid = 0 and u = True and rnd = "\<lambda>i. 0"
        and pub_key = "replicate 65 0" and digest = "replicate 32 0" and st = world0] z
    by (simp add: rd_bytes_zero_sig read_be_zero rd_bytes_def)
  have B: "ecdsa_recover_pub_from_sig True ref_ops (\<lambda>i. 0) secp256k1 (replicate 65 0) sig_x_overflow
     (replicate 32 0) 2 world0 = Some (Inr (1, replicate 65 0, world0))"
    using ecdsa_recover_failures_return_one [where sig = sig_x_overflow and rb = "0x80 # replicate 31 0"
        and sb = "replicate 31 0 @ [0x01]" and ops = ref_ops and curve = secp256k1 and recid = 2
        and u = True and rnd = "\<lambda>i. 0" and pub_key = "replicate 65 0"
        and digest = "replicate 32 0" and st = world0] x two
    by (simp add: rd_bytes_sig_x_overflow read_be_2p255 add_order_2p255 o)
  have C: "ecdsa_recover_pub_from_sig True ref_ops (\<lambda>i. 0) toy_curve (replicate 65 0) sig_r1_s1
     (replicate 32 0) 0 world0 = Some (Inr (1, replicate 65 0, world0))"
    using ecdsa_recover_failures_return_one [where sig = sig_r1_s1 and rb = "replicate 31 0 @ [0x01]"
        and sb = "replicate 31 0 @ [0x01]" and ops = ref_ops and curve = toy_curve and recid = 0
        and u = True and rnd = "\<lambda>i. 0" and pub_key = "replicate 65 0"
        and digest = "replicate 32 0" and st = world0] toy_validate
    by (simp add: rd_bytes_sig_r1_s1 read_be_one two toy_uncompress)
  show ?thesis using A B C by simp
qed

text \<open>
  The claim as stated fails: the all-zero signature fails the first validation step and
  \<open>r = 2 ^ 255\<close>, \<open>s = 1\<close> with recovery id 2 passes it and fails the range check of the
  offset x-coordinate, and both calls return the same outcome.
\<close>

theorem ecdsa_recover_failures_not_distinguished:
  "ecdsa_recover_pub_from_sig True ref_ops (\<lambda>i. 0) secp256k1 (replicate 65 0) (replicate 64 0)
     (replicate 32 0) 0 world0 = Some (Inr (1, replicate 65 0, world0)) \<and>
   bn_is_zero (bn_read_be ref_ops (replicate 32 0)) \<and>
   ecdsa_recover_pub_from_sig True ref_ops (\<lambda>i. 0) secp256k1 (replicate 65 0) sig_x_overflow
     (replicate 32 0) 2 world0 = Some (Inr (1, replicate 65 0, world0)) \<and>
   bn_is_less (bn_read_be ref_ops (0x80 # replicate 31 0)) secp256k1_order \<and>
   \<not> bn_is_zero (bn_read_be ref_ops (0x80 # replicate 31 0)) \<and>
   bn_is_less (bn_read_be ref_ops (replicate 31 0 @ [0x01])) secp256k1_order \<and>
   \<not> bn_is_zero (bn_read_be ref_ops (replicate 31 0 @ [0x01])) \<and>
   \<not> bn_is_less (bn_add ref_ops (bn_read_be ref_ops (0x80 # replicate 31 0)) secp256k1_order)
       secp256k1_prime"
proof -
  have z: "bn_is_zero bn_zero" by (simp add: bn_is_zero_def bn_zero_def)
  have o: "curve_order secp256k1 = secp256k1_order" "curve_prime secp256k1 = secp256k1_prime"
    by (simp_all add: secp256k1_def)
  have r: "bn_is_less \<lparr>val = [0, 0, 0, 0, 0, 0, 0, 0, 0x8000]\<rparr> secp256k1_order"
          "\<not> bn_is_zero \<lparr>val = [0, 0, 0, 0, 0, 0, 0, 0, 0x8000]\<rparr>"
          "bn_is_less (bn_lit 1) secp256k1_order" "\<not> bn_is_zero (bn_lit 1)"
    by (simp_all add: bn_is_less_def bn_is_zero_def bn_val_def secp256k1_order_def bn_lit_def replicate_9)
  have x: "\<not> bn_is_less \<lparr>val = [0x10364141, 0x3f497a33, 0x348a03bb, 0x2bb739ab, 0x3ffffeba,
             0x3fffffff, 0x3fffffff, 0x3fffffff, 0x17fff]\<rparr> secp256k1_prime"
    by (simp add: bn_is_less_def bn_val_def secp256k1_prime_def)
  have two: "(2::int) AND 2 \<noteq> 0" by simp
  have A: "ecdsa_recover_pub_from_sig True ref_ops (\<lambda>i. 0) secp256k1 (replicate 65 0) (replicate 64 0)
     (replicate 32 0) 0 world0 = Some (Inr (1, replicate 65 0, world0))"
    using recover_fail [where sig = "replicate 64 0" and rb = "replicate 32 0" and sb = "replicate 32 0"
        and ops = ref_ops and curve = secp256k1 and recid = 0 and u = True and rnd = "\<lambda>i. 0"
        and pub_key = "replicate 65 0" and digest = "replicate 32 0" and st = world0] z
    by (simp add: rd_bytes_zero_sig read_be_zero rd_bytes_def)
  have B: "ecdsa_recover_pub_from_sig True ref_ops (\<lambda>i. 0) secp256k1 (replicate 65 0) sig_x_overflow
     (replicate 32 0) 2 world0 = Some (Inr (1, replicate 65 0, world0))"
    using recover_fail [where sig = sig_x_overflow and rb = "0x80 # replicate 31 0"
        and sb = "replicate 31 0 @ [0x01]" and ops = ref_ops and curve = secp256k1 and recid = 2
        and u = True and rnd = "\<lambda>i. 0" and pub_key = "replicate 65 0"
        and digest = "replicate 32 0" and st = world0] x two
    by (simp add: rd_bytes_sig_x_overflow read_be_2p255 add_order_2p255 o)
  show ?thesis
    using A B z r x by (simp add: read_be_zero read_be_2p255 read_be_one add_order_2p255)
qed

section \<open>The reference arithmetic meets the contracts\<close>

lemma bn_norm_of_nat: "bn_norm (bn_of_nat n)"
proof -
  have "(of_nat (m mod 2 ^ 30) :: u32) < 2 ^ 30" for m :: nat
    by (simp add: word_less_nat_alt unat_of_nat)
  then show ?thesis
    by (simp add: bn_norm_def bn_of_nat_def)
qed

lemma unat_limb: "unat (of_nat (m mod 2 ^ 30) :: u32) = m mod 2 ^ 30"
proof -
  have "m mod 2 ^ 30 < (2 ^ 32 :: nat)"
    by (rule less_trans [of _ "2 ^ 30"]) simp_all
  then show ?thesis
    by (simp add: unat_of_nat)
qed

lemma split30: "(m :: nat) mod 2 ^ 30 + 2 ^ 30 * (m div 2 ^ 30) = m"
  by simp

lemma bn_val_of_nat:
  assumes "n < 2 ^ 272"
  shows "bn_val (bn_of_nat n) = n"
proof -
  have top: "unat (of_nat (n div 2 ^ 240) :: u32) = n div 2 ^ 240"
  proof -
    have "n div 2 ^ 240 < 2 ^ 32"
      using assms by (simp add: less_mult_imp_div_less)
    then show ?thesis by (simp add: unat_of_nat)
  qed
  have d: "n div 2 ^ 60 = n div 2 ^ 30 div 2 ^ 30" "n div 2 ^ 90 = n div 2 ^ 60 div 2 ^ 30"
    "n div 2 ^ 120 = n div 2 ^ 90 div 2 ^ 30" "n div 2 ^ 150 = n div 2 ^ 120 div 2 ^ 30"
    "n div 2 ^ 180 = n div 2 ^ 150 div 2 ^ 30" "n div 2 ^ 210 = n div 2 ^ 180 div 2 ^ 30"
    "n div 2 ^ 240 = n div 2 ^ 210 div 2 ^ 30"
    by (simp_all add: div_exp_eq)
  have "bn_val (bn_of_nat n) =
        n mod 2 ^ 30 + 2 ^ 30 * (n div 2 ^ 30 mod 2 ^ 30 + 2 ^ 30 * (n div 2 ^ 60 mod 2 ^ 30 +
        2 ^ 30 * (n div 2 ^ 90 mod 2 ^ 30 + 2 ^ 30 * (n div 2 ^ 120 mod 2 ^ 30 +
        2 ^ 30 * (n div 2 ^ 150 mod 2 ^ 30 + 2 ^ 30 * (n div 2 ^ 180 mod 2 ^ 30 +
        2 ^ 30 * (n div 2 ^ 210 mod 2 ^ 30 + 2 ^ 30 * (n div 2 ^ 240))))))))"
    unfolding bn_val_def bn_of_nat_def bignum256.simps limbs_val.simps unat_limb top by simp
  also have "\<dots> = n"
    unfolding d(7) split30 d(6) d(5) d(4) d(3) d(2) d(1) ..
  finally show ?thesis .
qed

lemma bn_val_lt_272:
  assumes "bn_norm p"
  shows "bn_val p < 2 ^ 272"
proof -
  have l: "length (val p) = 9" and n: "list_all (\<lambda>w. w < 2 ^ 30) (take 8 (val p))"
    using assms by (simp_all add: bn_norm_def)
  have "limbs_val (take 8 (val p)) < 2 ^ (30 * length (take 8 (val p)))"
    using n by (rule limbs_val_lt)
  then have a: "limbs_val (take 8 (val p)) < 2 ^ 240"
    using l by simp
  have b: "unat (val p ! 8) < 2 ^ 32"
    using unsigned_less [of "val p ! 8", where 'a = nat] by simp
  have "bn_val p = limbs_val (take 8 (val p)) + 2 ^ 240 * unat (val p ! 8)"
    using limbs_val_9 [OF l] by (simp add: bn_val_def)
  also have "\<dots> < 2 ^ 240 + 2 ^ 240 * unat (val p ! 8)"
    using a by simp
  also have "\<dots> = 2 ^ 240 * (unat (val p ! 8) + 1)"
    by simp
  also have "\<dots> \<le> 2 ^ 240 * 2 ^ 32"
    using b by (intro mult_le_mono2) simp
  finally show ?thesis by simp
qed

lemma ref_val:
  assumes "bn_norm p" and "0 < bn_val p"
  shows "bn_val (bn_of_nat (n mod bn_val p)) = n mod bn_val p"
proof -
  have "n mod bn_val p < bn_val p" using assms(2) by simp
  also have "\<dots> < 2 ^ 272" using assms(1) by (rule bn_val_lt_272)
  finally show ?thesis by (rule bn_val_of_nat)
qed

lemma mod_lt_twice: "0 < (p::nat) \<Longrightarrow> n mod p < 2 * p"
  by (rule less_le_trans [of _ p]) simp_all

lemma ref_multiply_contract:
  assumes "bn_norm p" and "0 < bn_val p"
  shows "multiply_contract ref_ops p"
  using assms
  by (simp add: multiply_contract_def ref_ops_def partly_reduced_def bn_norm_of_nat ref_val mod_lt_twice)

lemma ref_mod_contract:
  assumes "bn_norm p" and "0 < bn_val p"
  shows "mod_contract ref_ops p"
  using assms
  by (simp add: mod_contract_def ref_ops_def bn_norm_of_nat ref_val)

lemma ref_addmod_contract:
  assumes "bn_norm p" and "0 < bn_val p"
  shows "addmod_contract ref_ops p"
  using assms
  by (simp add: addmod_contract_def ref_ops_def partly_reduced_def bn_norm_of_nat ref_val mod_lt_twice)

lemma ref_subi_contract:
  assumes "bn_norm p" and "0 < bn_val p"
  shows "subi_contract ref_ops p"
  unfolding subi_contract_def
proof (intro allI impI)
  fix x and b :: u32
  assume h: "partly_reduced p x \<and> unat b \<le> 3"
  define m where "m = bn_val x + 3 * bn_val p - unat b"
  have e: "bn_subi ref_ops x b p = bn_of_nat (m mod bn_val p)"
    by (simp add: ref_ops_def m_def)
  have v: "bn_val (bn_of_nat (m mod bn_val p)) = m mod bn_val p"
    using assms by (rule ref_val)
  have "m mod bn_val p < bn_val p"
    using assms(2) by simp
  then have lt: "m mod bn_val p < 4 * bn_val p"
    by simp
  have "unat b \<le> bn_val x + 3 * bn_val p"
    using h assms(2) by simp
  then have "m + unat b = bn_val x + 3 * bn_val p"
    by (simp add: m_def)
  then have "(m + unat b) mod bn_val p = bn_val x mod bn_val p"
    by simp
  then have c: "(m mod bn_val p + unat b) mod bn_val p = bn_val x mod bn_val p"
    by (simp add: mod_add_left_eq)
  show "bounded p (bn_subi ref_ops x b p) \<and>
        (bn_val (bn_subi ref_ops x b p) + unat b) mod bn_val p = bn_val x mod bn_val p"
    unfolding e bounded_def v using lt c bn_norm_of_nat by simp
qed

section \<open>Properties of the Jacobian conversion\<close>

lemma generate_k_random_good:
  "good_k p (draw_k rnd n) \<Longrightarrow> generate_k_random rnd p n = Some (draw_k rnd n, n + 9)"
  by (subst generate_k_random.simps) (simp add: good_k_def)

lemma generate_k_random_bad:
  "\<not> good_k p (draw_k rnd n) \<Longrightarrow> generate_k_random rnd p n = generate_k_random rnd p (n + 9)"
  by (subst generate_k_random.simps) (auto simp: good_k_def)

lemma generate_k_random_first:
  assumes "good_k p (draw_k rnd (n + 9 * m))"
    and "\<forall>j<m. \<not> good_k p (draw_k rnd (n + 9 * j))"
  shows "generate_k_random rnd p n = Some (draw_k rnd (n + 9 * m), n + 9 * m + 9)"
  using assms
proof (induction m arbitrary: n)
  case 0
  then show ?case
    using generate_k_random_good [of p rnd n] by simp
next
  case (Suc m)
  have bad: "\<not> good_k p (draw_k rnd n)"
    using Suc.prems(2) [rule_format, of 0] by simp
  have g: "good_k p (draw_k rnd (n + 9 + 9 * m))"
    using Suc.prems(1) by (simp add: algebra_simps)
  have b: "\<forall>j<m. \<not> good_k p (draw_k rnd (n + 9 + 9 * j))"
  proof (intro allI impI)
    fix j assume "j < m"
    then have "\<not> good_k p (draw_k rnd (n + 9 * Suc j))"
      using Suc.prems(2) [rule_format, of "Suc j"] by simp
    then show "\<not> good_k p (draw_k rnd (n + 9 + 9 * j))"
      by (simp add: algebra_simps)
  qed
  have "generate_k_random rnd p (n + 9) = Some (draw_k rnd (n + 9 + 9 * m), n + 9 + 9 * m + 9)"
    using Suc.IH [OF g b] .
  then show ?case
    using generate_k_random_bad [OF bad] by (simp add: algebra_simps)
qed

lemma generate_k_random_some:
  assumes r: "generate_k_random rnd p n = Some y"
  shows "\<exists>m. good_k p (draw_k rnd (n + 9 * m))"
proof (rule generate_k_random.raw_induct
    [where P = "\<lambda>rnd p n y. \<exists>m. good_k p (draw_k rnd (n + 9 * m))", OF _ r])
  fix f :: "(nat \<Rightarrow> u32) \<Rightarrow> bignum256 \<Rightarrow> nat \<Rightarrow> (bignum256 \<times> nat) option"
  fix rnd p n y
  assume IH: "\<And>a b c y. f a b c = Some y \<Longrightarrow> \<exists>m. good_k b (draw_k a (c + 9 * m))"
    and st: "(let k = draw_k rnd n
              in if bn_is_zero k \<or> \<not> bn_is_less k p then f rnd p (n + 9) else Some (k, n + 9)) = Some y"
  show "\<exists>m. good_k p (draw_k rnd (n + 9 * m))"
  proof (cases "good_k p (draw_k rnd n)")
    case True
    then show ?thesis by (intro exI [of _ 0]) simp
  next
    case False
    then have "f rnd p (n + 9) = Some y"
      using st by (auto simp: good_k_def Let_def split: if_splits)
    then obtain m where "good_k p (draw_k rnd (n + 9 + 9 * m))"
      using IH by blast
    then show ?thesis
      by (intro exI [of _ "Suc m"]) (simp add: algebra_simps)
  qed
qed

lemma generate_k_random_never:
  "\<forall>m. \<not> good_k p (draw_k rnd (n + 9 * m)) \<Longrightarrow> generate_k_random rnd p n = None"
  using generate_k_random_some [of rnd p n] by (cases "generate_k_random rnd p n") auto

lemma and30_lt: "(w :: u32) AND 0x3FFFFFFF < 0x40000000"
  by (simp add: word_less_nat_alt unat_and30)

lemma bn_norm_draw_k: "bn_norm (draw_k rnd n)"
  by (simp add: bn_norm_def draw_k_def and30_lt)

lemma limbs_val_zero: "limbs_val xs = 0 \<Longrightarrow> xs = replicate (length xs) 0"
  by (induction xs) (simp_all add: unat_eq_0)

lemma bn_val_pos:
  assumes "bn_norm k" and "\<not> bn_is_zero k"
  shows "0 < bn_val k"
proof (rule ccontr)
  assume "\<not> 0 < bn_val k"
  then have "limbs_val (val k) = 0" by (simp add: bn_val_def)
  then have "val k = replicate (length (val k)) 0" by (rule limbs_val_zero)
  then show False using assms by (simp add: bn_norm_def bn_is_zero_def)
qed

lemma curve_to_jacobian_represents:
  assumes mc: "multiply_contract ops p"
    and bx: "bounded p (pt_x pt)" and by': "bounded p (pt_y pt)"
    and gk: "good_k p (draw_k rnd (n + 9 * m))"
    and fst: "\<forall>j<m. \<not> good_k p (draw_k rnd (n + 9 * j))"
  shows "\<exists>jp. curve_to_jacobian ops rnd pt p n = Some (jp, n + 9 * m + 9) \<and>
           jp_z jp = draw_k rnd (n + 9 * m) \<and>
           0 < bn_val (jp_z jp) \<and> bn_val (jp_z jp) < bn_val p \<and>
           bn_val (jp_x jp) mod bn_val p = (bn_val (pt_x pt) * bn_val (jp_z jp) ^ 2) mod bn_val p \<and>
           bn_val (jp_y jp) mod bn_val p = (bn_val (pt_y pt) * bn_val (jp_z jp) ^ 3) mod bn_val p"
proof -
  have g: "generate_k_random rnd p n = Some (draw_k rnd (n + 9 * m), n + 9 * m + 9)"
    using gk fst by (rule generate_k_random_first)
  define z where "z = draw_k rnd (n + 9 * m)"
  define P where "P = bn_val p"
  define Z where "Z = bn_val z"
  have nz: "bn_norm z" by (simp add: z_def bn_norm_draw_k)
  have zp: "0 < Z" using gk nz by (simp add: Z_def z_def good_k_def bn_val_pos)
  have zl: "Z < P" using gk by (simp add: Z_def P_def z_def good_k_def bn_is_less_def)
  have bz: "bounded p z" using nz zl by (simp add: bounded_def Z_def P_def)
  have pb: "bounded p x" if "partly_reduced p x" for x
    using that by (simp add: bounded_def partly_reduced_def)
  have mul: "bounded p (bn_multiply ops a b p) \<and>
             bn_val (bn_multiply ops a b p) mod P = (bn_val a * bn_val b) mod P"
    if "bounded p a" "bounded p b" for a b
    using mc that pb by (simp add: multiply_contract_def P_def)
  define x1 where "x1 = bn_multiply ops z z p"
  define y1 where "y1 = bn_multiply ops z x1 p"
  define x2 where "x2 = bn_multiply ops (pt_x pt) x1 p"
  define y2 where "y2 = bn_multiply ops (pt_y pt) y1 p"
  have x1: "bounded p x1" "bn_val x1 mod P = (Z * Z) mod P"
    using mul [OF bz bz] by (simp_all add: x1_def Z_def)
  have y1: "bounded p y1" "bn_val y1 mod P = (Z * bn_val x1) mod P"
    using mul [OF bz x1(1)] by (simp_all add: y1_def Z_def)
  have x2: "bn_val x2 mod P = (bn_val (pt_x pt) * bn_val x1) mod P"
    using mul [OF bx x1(1)] by (simp add: x2_def)
  have y2: "bn_val y2 mod P = (bn_val (pt_y pt) * bn_val y1) mod P"
    using mul [OF by' y1(1)] by (simp add: y2_def)
  have y1': "bn_val y1 mod P = (Z * (Z * Z)) mod P"
    using y1(2) x1(2) by (metis mod_mult_right_eq)
  have x2': "bn_val x2 mod P = (bn_val (pt_x pt) * Z ^ 2) mod P"
    using x2 x1(2) by (metis mod_mult_right_eq power2_eq_square)
  have y2': "bn_val y2 mod P = (bn_val (pt_y pt) * Z ^ 3) mod P"
    using y2 y1' by (metis mod_mult_right_eq power3_eq_cube mult.assoc)
  have "curve_to_jacobian ops rnd pt p n = Some (\<lparr>jp_x = x2, jp_y = y2, jp_z = z\<rparr>, n + 9 * m + 9)"
    by (simp add: curve_to_jacobian_def g Let_def x1_def y1_def x2_def y2_def z_def)
  then show ?thesis
    using zp zl x2' y2' by (simp add: Z_def P_def z_def)
qed

lemma secp_prime_facts:
  "bn_norm secp256k1_prime" "0 < bn_val secp256k1_prime"
  "bn_val secp256k1_prime = 2 ^ 256 - 2 ^ 32 - 977"
  by (simp_all add: bn_norm_def bn_val_def secp256k1_prime_def)

lemma secp_G_facts:
  "bn_norm (pt_x secp256k1_G)" "bn_norm (pt_y secp256k1_G)"
  "bn_val (pt_x secp256k1_G) = 0x79BE667EF9DCBBAC55A06295CE870B07029BFCDB2DCE28D959F2815B16F81798"
  "bn_val (pt_y secp256k1_G) = 0x483ADA7726A3C4655DA4FBFC0E1108A8FD17B448A68554199C47D08FFB10D4B8"
  by (simp_all add: bn_norm_def bn_val_def secp256k1_G_def)

lemma draw_high: "draw_k rnd_high 0 =
    \<lparr>val = [0, 0x3ffffff8, 0x3fffffff, 0x3fffffff, 0x3fffffff, 0x3fffffff, 0x3fffffff, 0x3fffffff, 0xffff]\<rparr>"
  by (simp add: draw_k_def rnd_high_def)

lemma z_high_facts:
  "good_k secp256k1_prime \<lparr>val = [0, 0x3ffffff8, 0x3fffffff, 0x3fffffff, 0x3fffffff, 0x3fffffff, 0x3fffffff, 0x3fffffff, 0xffff]\<rparr>"
  "\<not> bn_is_less \<lparr>val = [0, 0x3ffffff8, 0x3fffffff, 0x3fffffff, 0x3fffffff, 0x3fffffff, 0x3fffffff, 0x3fffffff, 0xffff]\<rparr> secp256k1_order"
  by (simp_all add: good_k_def bn_is_zero_def bn_is_less_def bn_val_def secp256k1_prime_def secp256k1_order_def replicate_9)

lemma draw_retry: "draw_k rnd_retry 0 = bn_zero" "draw_k rnd_retry 9 = bn_lit 5"
  by (simp_all add: draw_k_def rnd_retry_def bn_zero_def bn_lit_def replicate_9)

lemma retry_good: "\<not> good_k secp256k1_prime bn_zero" "good_k secp256k1_prime (bn_lit 5)"
  by (simp_all add: good_k_def bn_is_zero_def bn_is_less_def bn_val_def secp256k1_prime_def bn_zero_def bn_lit_def replicate_9)

lemma retry_gen: "generate_k_random rnd_retry secp256k1_prime 0 = Some (bn_lit 5, 18)"
  using generate_k_random_bad [of secp256k1_prime rnd_retry 0]
    generate_k_random_good [of secp256k1_prime rnd_retry 9]
  by (simp add: draw_retry retry_good)

lemma G_bounded: "bounded secp256k1_prime (pt_x secp256k1_G)" "bounded secp256k1_prime (pt_y secp256k1_G)"
  by (simp_all add: bounded_def secp_G_facts secp_prime_facts(3))

lemma curve_to_jacobian_never:
  "\<forall>m. \<not> good_k p (draw_k rnd (n + 9 * m)) \<Longrightarrow> curve_to_jacobian ops rnd pt p n = None"
  by (simp add: curve_to_jacobian_def generate_k_random_never)

lemma draw_zero: "draw_k rnd_zero n = bn_zero"
  by (simp add: draw_k_def rnd_zero_def bn_zero_def replicate_9)

lemma zero_not_good: "\<not> good_k p bn_zero"
  by (simp add: good_k_def bn_is_zero_def bn_zero_def)

text \<open>
  Claim C8, as the code has it. \<^verbatim>\<open>curve_to_jacobian\<close> passes the prime to
  \<^verbatim>\<open>generate_k_random\<close>, and a sample is accepted when it is not zero and below that
  prime. Sample number \<open>j\<close> counted from the call is \<open>draw_k rnd (n + 9 * j)\<close>, built from the
  nine values of the random source that follow the \<open>9 * j\<close> values used by the samples
  before it. When sample \<open>m\<close> is the first accepted one, every sample before it has been
  rejected and redrawn, and the function returns with \<open>z\<close> equal to sample \<open>m\<close>, having
  used exactly \<open>9 * m + 9\<close> random values, none after the accepted sample; so
  \<open>0 < z < prime\<close>, and (for a multiplication that meets its contract and point
  coordinates that are bounded operands) \<open>x' \<equiv> x z\<^sup>2\<close> and \<open>y' \<equiv> y z\<^sup>3\<close> modulo the prime:
  the Jacobian point stands for the affine point passed in. When the random source never
  yields an accepted sample, the function does not return.
\<close>

theorem curve_to_jacobian_random_z:
  "(multiply_contract ops p \<and> bounded p (pt_x pt) \<and> bounded p (pt_y pt) \<and>
    good_k p (draw_k rnd (n + 9 * m)) \<and> (\<forall>j<m. \<not> good_k p (draw_k rnd (n + 9 * j))) \<longrightarrow>
    (\<exists>jp. curve_to_jacobian ops rnd pt p n = Some (jp, n + 9 * m + 9) \<and>
       jp_z jp = draw_k rnd (n + 9 * m) \<and>
       0 < bn_val (jp_z jp) \<and> bn_val (jp_z jp) < bn_val p \<and>
       bn_val (jp_x jp) mod bn_val p = (bn_val (pt_x pt) * bn_val (jp_z jp) ^ 2) mod bn_val p \<and>
       bn_val (jp_y jp) mod bn_val p = (bn_val (pt_y pt) * bn_val (jp_z jp) ^ 3) mod bn_val p)) \<and>
   ((\<forall>m. \<not> good_k p (draw_k rnd (n + 9 * m))) \<longrightarrow> curve_to_jacobian ops rnd pt p n = None)"
proof (intro conjI impI)
  assume h: "multiply_contract ops p \<and> bounded p (pt_x pt) \<and> bounded p (pt_y pt) \<and>
    good_k p (draw_k rnd (n + 9 * m)) \<and> (\<forall>j<m. \<not> good_k p (draw_k rnd (n + 9 * j)))"
  then show "\<exists>jp. curve_to_jacobian ops rnd pt p n = Some (jp, n + 9 * m + 9) \<and>
       jp_z jp = draw_k rnd (n + 9 * m) \<and>
       0 < bn_val (jp_z jp) \<and> bn_val (jp_z jp) < bn_val p \<and>
       bn_val (jp_x jp) mod bn_val p = (bn_val (pt_x pt) * bn_val (jp_z jp) ^ 2) mod bn_val p \<and>
       bn_val (jp_y jp) mod bn_val p = (bn_val (pt_y pt) * bn_val (jp_z jp) ^ 3) mod bn_val p"
    using curve_to_jacobian_represents [of ops p pt rnd n m] by simp
next
  assume "\<forall>m. \<not> good_k p (draw_k rnd (n + 9 * m))"
  then show "curve_to_jacobian ops rnd pt p n = None"
    by (rule curve_to_jacobian_never)
qed

text \<open>
  On secp256k1, for its base point, with the reference arithmetic: with a random source
  whose first sample is zero, the first sample is rejected, the second (5) is taken as
  \<open>z\<close>, and 18 random values have been used; with a random source of zeros only, the
  function does not return.
\<close>

theorem curve_to_jacobian_random_z_witness:
  "(\<exists>jp. curve_to_jacobian ref_ops rnd_retry secp256k1_G secp256k1_prime 0 = Some (jp, 18) \<and>
      jp_z jp = bn_lit 5 \<and>
      0 < bn_val (jp_z jp) \<and> bn_val (jp_z jp) < bn_val secp256k1_prime \<and>
      bn_val (jp_x jp) mod bn_val secp256k1_prime =
        (bn_val (pt_x secp256k1_G) * bn_val (jp_z jp) ^ 2) mod bn_val secp256k1_prime \<and>
      bn_val (jp_y jp) mod bn_val secp256k1_prime =
        (bn_val (pt_y secp256k1_G) * bn_val (jp_z jp) ^ 3) mod bn_val secp256k1_prime) \<and>
   curve_to_jacobian ref_ops rnd_zero secp256k1_G secp256k1_prime 0 = None"
proof -
  have g: "good_k secp256k1_prime (draw_k rnd_retry (0 + 9 * 1))"
    by (simp add: draw_retry retry_good)
  have b: "\<forall>j<1. \<not> good_k secp256k1_prime (draw_k rnd_retry (0 + 9 * j))"
    by (simp add: draw_retry retry_good)
  have d: "draw_k rnd_retry (0 + 9 * 1) = bn_lit 5"
    by (simp add: draw_retry)
  have z: "\<forall>m. \<not> good_k secp256k1_prime (draw_k rnd_zero (0 + 9 * m))"
    by (simp add: draw_zero zero_not_good)
  have A: "\<exists>jp. curve_to_jacobian ref_ops rnd_retry secp256k1_G secp256k1_prime 0 = Some (jp, 0 + 9 * 1 + 9) \<and>
      jp_z jp = draw_k rnd_retry (0 + 9 * 1) \<and>
      0 < bn_val (jp_z jp) \<and> bn_val (jp_z jp) < bn_val secp256k1_prime \<and>
      bn_val (jp_x jp) mod bn_val secp256k1_prime =
        (bn_val (pt_x secp256k1_G) * bn_val (jp_z jp) ^ 2) mod bn_val secp256k1_prime \<and>
      bn_val (jp_y jp) mod bn_val secp256k1_prime =
        (bn_val (pt_y secp256k1_G) * bn_val (jp_z jp) ^ 3) mod bn_val secp256k1_prime"
    using curve_to_jacobian_random_z [where ops = ref_ops and p = secp256k1_prime
        and pt = secp256k1_G and rnd = rnd_retry and n = 0 and m = 1, THEN conjunct1]
      ref_multiply_contract [OF secp_prime_facts(1,2)] G_bounded g b
    by (simp only: simp_thms)
  have B: "curve_to_jacobian ref_ops rnd_zero secp256k1_G secp256k1_prime 0 = None"
    using curve_to_jacobian_random_z [where ops = ref_ops and p = secp256k1_prime
        and pt = secp256k1_G and rnd = rnd_zero and n = 0, THEN conjunct2] z
    by (simp only: simp_thms)
  have e: "(0::nat) + 9 * 1 + 9 = 18" by simp
  show ?thesis
    using A B unfolding d e by (simp only: simp_thms)
qed

text \<open>
  The claim as stated fails: with the prime of secp256k1 as modulus, as
  \<^verbatim>\<open>point_multiply\<close> passes it, the sample \<open>2 ^ 256 - 2 ^ 33\<close> is accepted as \<open>z\<close>, and it
  is not below the curve order.
\<close>

theorem curve_to_jacobian_z_not_below_order:
  "map_option (jp_z \<circ> fst) (curve_to_jacobian ref_ops rnd_high secp256k1_G secp256k1_prime 0) =
     Some \<lparr>val = [0, 0x3ffffff8, 0x3fffffff, 0x3fffffff, 0x3fffffff, 0x3fffffff, 0x3fffffff, 0x3fffffff, 0xffff]\<rparr> \<and>
   \<not> bn_is_less \<lparr>val = [0, 0x3ffffff8, 0x3fffffff, 0x3fffffff, 0x3fffffff, 0x3fffffff, 0x3fffffff, 0x3fffffff, 0xffff]\<rparr> secp256k1_order"
  using generate_k_random_good [of secp256k1_prime rnd_high 0] z_high_facts
  by (simp add: curve_to_jacobian_def draw_high Let_def)

section \<open>Properties of the public key validation\<close>

lemma limbs_val_inj:
  "length xs = length ys \<Longrightarrow> list_all (\<lambda>w. w < 2 ^ 30) (butlast xs) \<Longrightarrow>
   list_all (\<lambda>w. w < 2 ^ 30) (butlast ys) \<Longrightarrow> limbs_val xs = limbs_val ys \<Longrightarrow> xs = ys"
proof (induction xs ys rule: list_induct2)
  case Nil
  then show ?case by simp
next
  case (Cons x xs y ys)
  show ?case
  proof (cases "xs = []")
    case True
    with Cons show ?thesis by (simp add: word_unat_eq_iff)
  next
    case False
    with Cons.hyps have ne: "ys \<noteq> []" by auto
    from Cons.prems False ne have x: "unat x < 2 ^ 30" and y: "unat y < 2 ^ 30"
      and bx: "list_all (\<lambda>w. w < 2 ^ 30) (butlast xs)"
      and by': "list_all (\<lambda>w. w < 2 ^ 30) (butlast ys)"
      by (simp_all add: word_less_nat_alt)
    from Cons.prems(3) have e: "unat x + 2 ^ 30 * limbs_val xs = unat y + 2 ^ 30 * limbs_val ys"
      by simp
    have "(unat x + 2 ^ 30 * limbs_val xs) mod 2 ^ 30 = (unat y + 2 ^ 30 * limbs_val ys) mod 2 ^ 30"
      by (simp only: e)
    then have "unat x mod 2 ^ 30 = unat y mod 2 ^ 30"
      by simp
    then have u: "unat x = unat y"
      using x y by simp
    then have "limbs_val xs = limbs_val ys"
      using e by simp
    then have "xs = ys"
      using Cons.IH bx by' by simp
    then show ?thesis using u by (simp add: word_unat_eq_iff)
  qed
qed

lemma bn_norm_inj:
  assumes "bn_norm a" and "bn_norm b" and "bn_val a = bn_val b"
  shows "val a = val b"
proof -
  have "butlast (val a) = take 8 (val a)" "butlast (val b) = take 8 (val b)"
    using assms by (simp_all add: bn_norm_def butlast_conv_take)
  then show ?thesis
    using assms by (intro limbs_val_inj) (simp_all add: bn_norm_def bn_val_def)
qed

lemma bn_is_equal_val: "bn_norm a \<Longrightarrow> bn_norm b \<Longrightarrow> bn_is_equal a b \<longleftrightarrow> bn_val a = bn_val b"
  using bn_norm_inj [of a b] by (auto simp: bn_is_equal_def bn_val_def)

lemma unat_neg_a:
  assumes "- 3 \<le> a" and "a \<le> 0"
  shows "int (unat (word_of_int (- a) :: u32)) = - a" and "unat (word_of_int (- a) :: u32) \<le> 3"
proof -
  from assms have "a = 0 \<or> a = - 1 \<or> a = - 2 \<or> a = - 3" by arith
  then show "int (unat (word_of_int (- a) :: u32)) = - a" and "unat (word_of_int (- a) :: u32) \<le> 3"
    by auto
qed

lemma curve_equation:
  fixes X Y B S1 S2 S3 S4 T1 u P :: nat and a :: int
  assumes e1: "S1 mod P = (X * X) mod P"
    and e2: "(S2 + u) mod P = S1 mod P"
    and e3: "S3 mod P = (X * S2) mod P"
    and e4: "S4 mod P = (S3 + B) mod P"
    and t1: "T1 mod P = (Y * Y) mod P"
    and u: "int u = - a"
  shows "S4 mod P = T1 mod P \<longleftrightarrow>
         (int Y)\<^sup>2 mod int P = ((int X) ^ 3 + a * int X + int B) mod int P"
proof -
  have i1: "int S1 mod int P = (int X * int X) mod int P"
    using e1 by (metis of_nat_mod of_nat_mult)
  have i2: "(int S2 + int u) mod int P = int S1 mod int P"
    using e2 by (metis of_nat_mod of_nat_add)
  have i3: "int S3 mod int P = (int X * int S2) mod int P"
    using e3 by (metis of_nat_mod of_nat_mult)
  have i4: "int S4 mod int P = (int S3 + int B) mod int P"
    using e4 by (metis of_nat_mod of_nat_add)
  have it: "int T1 mod int P = (int Y * int Y) mod int P"
    using t1 by (metis of_nat_mod of_nat_mult)
  have "int S2 mod int P = (int S2 + int u - int u) mod int P"
    by simp
  also have "\<dots> = (int S1 - int u) mod int P"
    using i2 by (metis mod_diff_left_eq)
  also have "\<dots> = (int X * int X - int u) mod int P"
    using i1 by (metis mod_diff_left_eq)
  finally have j2: "int S2 mod int P = (int X * int X + a) mod int P"
    using u by simp
  have "int S3 mod int P = (int X * (int X * int X + a)) mod int P"
    using i3 j2 by (metis mod_mult_right_eq)
  then have "int S4 mod int P = (int X * (int X * int X + a) + int B) mod int P"
    using i4 by (metis mod_add_left_eq)
  also have "int X * (int X * int X + a) + int B = (int X) ^ 3 + a * int X + int B"
    by (simp add: power3_eq_cube algebra_simps)
  finally have j4: "int S4 mod int P = ((int X) ^ 3 + a * int X + int B) mod int P" .
  have "S4 mod P = T1 mod P \<longleftrightarrow> int (S4 mod P) = int (T1 mod P)"
    by simp
  also have "\<dots> \<longleftrightarrow> int S4 mod int P = int T1 mod int P"
    by (simp only: of_nat_mod)
  also have "\<dots> \<longleftrightarrow> (int Y)\<^sup>2 mod int P = ((int X) ^ 3 + a * int X + int B) mod int P"
    unfolding j4 it by (auto simp: power2_eq_square)
  finally show ?thesis .
qed

lemma validate_iff:
  assumes mc: "multiply_contract ops (curve_prime curve)"
    and rc: "mod_contract ops (curve_prime curve)"
    and sc: "subi_contract ops (curve_prime curve)"
    and ac: "addmod_contract ops (curve_prime curve)"
    and nx: "bn_norm (pt_x pub)" and ny: "bn_norm (pt_y pub)"
    and bb: "bounded (curve_prime curve) (curve_b curve)"
    and a: "- 3 \<le> curve_a curve" "curve_a curve \<le> 0"
  shows "ecdsa_validate_pubkey ops curve pub =
         (if \<not> point_is_infinity pub \<and> bn_val (pt_x pub) < bn_val (curve_prime curve) \<and>
             bn_val (pt_y pub) < bn_val (curve_prime curve) \<and> on_curve curve pub
          then 1 else 0)"
proof (cases "\<not> point_is_infinity pub \<and> bn_val (pt_x pub) < bn_val (curve_prime curve) \<and>
              bn_val (pt_y pub) < bn_val (curve_prime curve)")
  case False
  then show ?thesis
    by (auto simp: ecdsa_validate_pubkey_def Let_def bn_is_less_def)
next
  case True
  define p where "p = curve_prime curve"
  define P where "P = bn_val p"
  define x where "x = pt_x pub"
  define y where "y = pt_y pub"
  define uw :: u32 where "uw = word_of_int (- curve_a curve)"
  have bx: "bounded p x" and by': "bounded p y"
    using True nx ny by (simp_all add: bounded_def p_def x_def y_def)
  have pb: "bounded p z" if "partly_reduced p z" for z
    using that by (simp add: bounded_def partly_reduced_def)
  have mul: "partly_reduced p (bn_multiply ops k z p) \<and>
             bn_val (bn_multiply ops k z p) mod P = (bn_val k * bn_val z) mod P"
    if "bounded p k" "bounded p z" for k z
    using mc that by (simp add: multiply_contract_def p_def P_def)
  have md: "bn_norm (bn_mod ops z p) \<and> bn_val (bn_mod ops z p) = bn_val z mod P"
    if "partly_reduced p z" for z
    using rc that by (simp add: mod_contract_def p_def P_def)
  have u3: "unat uw \<le> 3" and ui: "int (unat uw) = - curve_a curve"
    using unat_neg_a [OF a] by (simp_all add: uw_def)
  define t1 where "t1 = bn_multiply ops y y p"
  define y_2 where "y_2 = bn_mod ops t1 p"
  define s1 where "s1 = bn_multiply ops x x p"
  define s2 where "s2 = bn_subi ops s1 uw p"
  define s3 where "s3 = bn_multiply ops x s2 p"
  define s4 where "s4 = bn_addmod ops s3 (curve_b curve) p"
  define x3 where "x3 = bn_mod ops s4 p"
  have t1: "partly_reduced p t1" "bn_val t1 mod P = (bn_val y * bn_val y) mod P"
    using mul [OF by' by'] by (simp_all add: t1_def)
  have y_2: "bn_norm y_2" "bn_val y_2 = bn_val t1 mod P"
    using md [OF t1(1)] by (simp_all add: y_2_def)
  have s1: "partly_reduced p s1" "bn_val s1 mod P = (bn_val x * bn_val x) mod P"
    using mul [OF bx bx] by (simp_all add: s1_def)
  have s2: "bounded p s2" "(bn_val s2 + unat uw) mod P = bn_val s1 mod P"
    using sc s1(1) u3 by (simp_all add: subi_contract_def s2_def p_def P_def)
  have s3: "partly_reduced p s3" "bn_val s3 mod P = (bn_val x * bn_val s2) mod P"
    using mul [OF bx s2(1)] by (simp_all add: s3_def)
  have s4: "partly_reduced p s4" "bn_val s4 mod P = (bn_val s3 + bn_val (curve_b curve)) mod P"
    using ac pb [OF s3(1)] bb by (simp_all add: addmod_contract_def s4_def p_def P_def)
  have x3: "bn_norm x3" "bn_val x3 = bn_val s4 mod P"
    using md [OF s4(1)] by (simp_all add: x3_def)
  have eq: "bn_is_equal x3 y_2 \<longleftrightarrow> on_curve curve pub"
    using curve_equation [OF s1(2) s2(2) s3(2) s4(2) t1(2) ui]
    by (simp add: bn_is_equal_val x3 y_2 on_curve_def x_def y_def P_def p_def)
  have "ecdsa_validate_pubkey ops curve pub = (if \<not> bn_is_equal x3 y_2 then 0 else 1)"
    using True
    by (simp add: ecdsa_validate_pubkey_def Let_def bn_is_less_def x3_def s4_def s3_def s2_def
        s1_def y_2_def t1_def uw_def x_def y_def p_def)
  then show ?thesis
    using True eq by simp
qed

lemma secp_G_on_curve: "on_curve secp256k1 secp256k1_G"
  by (simp add: on_curve_def secp256k1_def secp_G_facts secp_prime_facts bn_val_lit)

lemma secp_G_not_infinity: "\<not> point_is_infinity secp256k1_G"
  by (simp add: point_is_infinity_def bn_is_zero_def secp256k1_G_def replicate_9)

lemma secp_b_bounded: "bounded secp256k1_prime (bn_lit 7)"
  by (simp add: bounded_def bn_norm_def bn_lit_def bn_val_def secp256k1_prime_def)

text \<open>
  Claim C7. For an arithmetic that meets its contracts at the curve's prime, point
  coordinates that are normalized limb arrays, \<open>b\<close> a bounded operand and \<open>a\<close> in
  \<open>[-3, 0]\<close>: \<^verbatim>\<open>ecdsa_validate_pubkey\<close> returns 1 exactly when the point is not the point at
  infinity, both coordinates are below the prime and the curve equation holds, and 0
  otherwise. The function has no assertion and no other exit.
\<close>

theorem ecdsa_validate_pubkey_iff_on_curve:
  "multiply_contract ops (curve_prime curve) \<and> mod_contract ops (curve_prime curve) \<and>
   subi_contract ops (curve_prime curve) \<and> addmod_contract ops (curve_prime curve) \<and>
   bn_norm (pt_x pub) \<and> bn_norm (pt_y pub) \<and> bounded (curve_prime curve) (curve_b curve) \<and>
   - 3 \<le> curve_a curve \<and> curve_a curve \<le> 0 \<longrightarrow>
   ecdsa_validate_pubkey ops curve pub =
     (if \<not> point_is_infinity pub \<and> bn_val (pt_x pub) < bn_val (curve_prime curve) \<and>
         bn_val (pt_y pub) < bn_val (curve_prime curve) \<and> on_curve curve pub
      then 1 else 0)"
  using validate_iff [of ops curve pub] by blast

text \<open>
  On secp256k1 with the reference arithmetic: the base point is valid, and the point
  \<open>(1, 1)\<close>, which is not on the curve, is not.
\<close>

theorem ecdsa_validate_pubkey_iff_on_curve_witness:
  "ecdsa_validate_pubkey ref_ops secp256k1 secp256k1_G = 1 \<and>
   ecdsa_validate_pubkey ref_ops secp256k1 \<lparr>pt_x = bn_lit 1, pt_y = bn_lit 1\<rparr> = 0"
proof -
  have c: "curve_prime secp256k1 = secp256k1_prime" "curve_b secp256k1 = bn_lit 7"
    "curve_a secp256k1 = 0"
    by (simp_all add: secp256k1_def)
  have n1: "bn_norm (bn_lit 1)"
    by (simp add: bn_norm_def bn_lit_def)
  have off: "\<not> on_curve secp256k1 \<lparr>pt_x = bn_lit 1, pt_y = bn_lit 1\<rparr>"
    by (simp add: on_curve_def c bn_val_lit secp_prime_facts(3))
  have A: "ecdsa_validate_pubkey ref_ops secp256k1 secp256k1_G = 1"
    using ecdsa_validate_pubkey_iff_on_curve [of ref_ops secp256k1 secp256k1_G]
      ref_multiply_contract [OF secp_prime_facts(1,2)] ref_mod_contract [OF secp_prime_facts(1,2)]
      ref_subi_contract [OF secp_prime_facts(1,2)] ref_addmod_contract [OF secp_prime_facts(1,2)]
      secp_G_facts(1,2) secp_b_bounded secp_G_on_curve secp_G_not_infinity
    by (simp add: c secp_G_facts(3,4) secp_prime_facts(3))
  have B: "ecdsa_validate_pubkey ref_ops secp256k1 \<lparr>pt_x = bn_lit 1, pt_y = bn_lit 1\<rparr> = 0"
    using ecdsa_validate_pubkey_iff_on_curve
        [of ref_ops secp256k1 "\<lparr>pt_x = bn_lit 1, pt_y = bn_lit 1\<rparr>"]
      ref_multiply_contract [OF secp_prime_facts(1,2)] ref_mod_contract [OF secp_prime_facts(1,2)]
      ref_subi_contract [OF secp_prime_facts(1,2)] ref_addmod_contract [OF secp_prime_facts(1,2)]
      n1 secp_b_bounded off
    by (simp add: c)
  show ?thesis using A B by simp
qed

end
